theory Spec2Isabelle
  imports Complex_Main "HOL-Library.Sublist" "HOL-Library.Multiset"
begin

section \<open>TalentFlow: the mock backend over the local store\<close>

text \<open>
  A shallow embedding of \<^verbatim>\<open>src/lib/db.ts\<close> (types, seeder, \<^verbatim>\<open>paginate\<close>) and of the
  route handlers of \<^verbatim>\<open>src/mirage/server.ts\<close>.

  Conventions of the embedding:
  \<^item> JavaScript numbers that hold identifiers and counts are \<open>nat\<close>; \<open>order\<close>, timestamps
    and the pagination parameters are \<open>int\<close>. Non-integral numbers and \<open>NaN\<close> are outside
    the model.
  \<^item> A Dexie table is the list of its rows in primary-key order, which is the order
    \<^verbatim>\<open>toArray()\<close> yields. The auto-incremented key of the append-only tables
    (\<^verbatim>\<open>timelines\<close>, \<^verbatim>\<open>assessmentResponses\<close>) is the position in the list and is not stored.
  \<^item> Every handler takes an environment: the value of the one \<^verbatim>\<open>Math.random()\<close> call that
    decides failure injection, the successive readings of \<^verbatim>\<open>Date.now()\<close>, and the draws
    of the seeder. The \<^verbatim>\<open>sleep\<close> calls (and the random draws that only size them) change
    neither the store nor the response and are left out.
  \<^item> A handler returns its response together with the store after the call.
  \<^item> \<^verbatim>\<open>null\<close> and an absent optional field are both \<open>None\<close>.
  \<^item> Strings are byte lists; \<^verbatim>\<open>toLowerCase\<close> is modelled on the ASCII letters.
\<close>

subsection \<open>Types of \<^verbatim>\<open>db.ts\<close>\<close>

datatype JobStatus = active | archived

record Job =
  j_id :: nat
  j_title :: string
  j_slug :: string
  j_status :: JobStatus
  j_tags :: "string list"
  j_order :: int
  j_createdAt :: int
  j_updatedAt :: int

datatype CandidateStage = applied | screen | tech | offer | hired | rejected

record Candidate =
  c_id :: nat
  c_jobId :: "nat option"
  c_name :: string
  c_email :: string
  c_stage :: CandidateStage
  c_createdAt :: int
  c_updatedAt :: int

datatype EventType = stage_change | note_event

record CandidateTimelineEvent =
  e_candidateId :: nat
  e_type :: EventType
  e_from :: "CandidateStage option"
  e_to :: "CandidateStage option"
  e_note :: "string option"
  e_at :: int

datatype QuestionType = single | multi | short | long | numeric | file_type

datatype AnswerValue = StrV string | NumV int | BoolV bool

record ShowIf =
  si_questionId :: string
  si_equals :: AnswerValue

record AssessmentQuestion =
  q_id :: string
  q_type :: QuestionType
  q_label :: string
  q_required :: "bool option"
  q_options :: "string list option"
  q_maxLength :: "nat option"
  q_min :: "int option"
  q_max :: "int option"
  q_showIf :: "ShowIf option"

record AssessmentSection =
  s_id :: string
  s_title :: string
  s_questions :: "AssessmentQuestion list"

record Assessment =
  a_id :: nat
  a_jobId :: nat
  a_title :: string
  a_sections :: "AssessmentSection list"
  a_updatedAt :: int

record AssessmentResponse =
  r_jobId :: nat
  r_candidateId :: nat
  r_responses :: "(string \<times> AnswerValue) list"
  r_submittedAt :: int

subsection \<open>Tables\<close>

text \<open>
  The Dexie operations the handlers use, on a table kept in primary-key order.
  \<^verbatim>\<open>add\<close> rejects a key that is already present (Dexie's \<^verbatim>\<open>ConstraintError\<close>);
  \<^verbatim>\<open>put\<close> replaces the row with that key or inserts; \<^verbatim>\<open>update\<close> changes the row with
  that key and does nothing when there is none.
\<close>

definition has_key :: "('a \<Rightarrow> nat) \<Rightarrow> nat \<Rightarrow> 'a list \<Rightarrow> bool" where
  "has_key k i t = list_ex (\<lambda>r. k r = i) t"

definition tget :: "('a \<Rightarrow> nat) \<Rightarrow> nat \<Rightarrow> 'a list \<Rightarrow> 'a option" where
  "tget k i t = find (\<lambda>r. k r = i) t"

definition tput :: "('a \<Rightarrow> nat) \<Rightarrow> 'a \<Rightarrow> 'a list \<Rightarrow> 'a list" where
  "tput k r t =
     (if has_key k (k r) t then map (\<lambda>x. if k x = k r then r else x) t
      else insort_key k r t)"

definition tadd :: "('a \<Rightarrow> nat) \<Rightarrow> 'a \<Rightarrow> 'a list \<Rightarrow> 'a list option" where
  "tadd k r t = (if has_key k (k r) t then None else Some (insort_key k r t))"

definition tupdate :: "('a \<Rightarrow> nat) \<Rightarrow> nat \<Rightarrow> ('a \<Rightarrow> 'a) \<Rightarrow> 'a list \<Rightarrow> 'a list" where
  "tupdate k i f t = map (\<lambda>x. if k x = i then f x else x) t"

definition bulkPut :: "('a \<Rightarrow> nat) \<Rightarrow> 'a list \<Rightarrow> 'a list \<Rightarrow> 'a list" where
  "bulkPut k rs t = foldl (\<lambda>acc r. tput k r acc) t rs"

text \<open>The primary keys of a table are pairwise distinct and the rows are in key order.\<close>

definition wf_table :: "('a \<Rightarrow> nat) \<Rightarrow> 'a list \<Rightarrow> bool" where
  "wf_table k t = (distinct (map k t) \<and> sorted (map k t))"

subsection \<open>The store\<close>

record Store =
  jobs :: "Job list"
  candidates :: "Candidate list"
  timelines :: "CandidateTimelineEvent list"
  assessments :: "Assessment list"
  assessmentResponses :: "AssessmentResponse list"
  meta :: "string \<rightharpoonup> bool"

definition empty_store :: Store where
  "empty_store = \<lparr>jobs = [], candidates = [], timelines = [], assessments = [],
     assessmentResponses = [], meta = Map.empty\<rparr>"

text \<open>\<^verbatim>\<open>seeded?.value\<close>: the flag is set when the row exists and holds a truthy value.\<close>

definition seeded :: "Store \<Rightarrow> bool" where
  "seeded s = (meta s ''seeded'' = Some True)"

subsection \<open>Strings\<close>

definition lower_char :: "char \<Rightarrow> char" where
  "lower_char c =
     (let n = (of_char c :: nat) in if 65 \<le> n \<and> n \<le> 90 then char_of (n + 32) else c)"

definition toLowerCase :: "string \<Rightarrow> string" where
  "toLowerCase s = map lower_char s"

text \<open>\<^verbatim>\<open>hay.includes(needle)\<close>: the needle occurs as a contiguous run.\<close>

definition includes_str :: "string \<Rightarrow> string \<Rightarrow> bool" where
  "includes_str hay needle = sublist needle hay"

subsection \<open>\<^verbatim>\<open>paginate\<close>\<close>

record 'a Page =
  data :: "'a list"
  page :: int
  pageSize :: int
  total :: int
  pages :: int

text \<open>
  \<^verbatim>\<open>items.slice(start, end)\<close>: a negative index counts from the end, both indices are
  clamped to the length, and the result is empty when the range is. In \<^verbatim>\<open>paginate\<close> the
  quotient \<^verbatim>\<open>total / pageSize\<close> is the real quotient; a \<^verbatim>\<open>pageSize\<close> of zero (where
  JavaScript yields \<^verbatim>\<open>Infinity\<close> or \<^verbatim>\<open>NaN\<close>) is outside the model.
\<close>

definition slice_index :: "nat \<Rightarrow> int \<Rightarrow> nat" where
  "slice_index len i = (if i < 0 then nat (max (int len + i) 0) else min (nat i) len)"

definition slice :: "'a list \<Rightarrow> int \<Rightarrow> int \<Rightarrow> 'a list" where
  "slice xs start stop =
     (let a = slice_index (length xs) start; b = slice_index (length xs) stop
      in take (b - a) (drop a xs))"

definition paginate :: "'a list \<Rightarrow> int \<Rightarrow> int \<Rightarrow> 'a Page" where
  "paginate items pg ps =
     (let total = int (length items);
          pages = max 1 \<lceil>real_of_int total / real_of_int ps\<rceil>;
          start = (pg - 1) * ps;
          stop = start + ps
      in \<lparr>data = slice items start stop, page = pg, pageSize = ps, total = total,
          pages = pages\<rparr>)"

subsection \<open>The seeder: \<^verbatim>\<open>ensureSeed\<close>\<close>

text \<open>
  The seeder's random content (faker and \<^verbatim>\<open>Math.random()\<close>) is read from a record of
  draws, indexed by the loop counters at which the source draws them. A pick from a
  fixed array is a drawn index reduced modulo the array's length; a drawn integer of a
  range is the lower bound plus a drawn number reduced modulo the range's size.
\<close>

record SeedDraws =
  g_now :: int
  g_jobTitle :: "nat \<Rightarrow> string"
  g_jobStatus :: "nat \<Rightarrow> real"
  g_jobTags :: "nat \<Rightarrow> string list"
  g_jobAge :: "nat \<Rightarrow> nat"
  g_candJob :: "nat \<Rightarrow> nat"
  g_candName :: "nat \<Rightarrow> string"
  g_candEmail :: "nat \<Rightarrow> string \<Rightarrow> string"
  g_candStage :: "nat \<Rightarrow> nat"
  g_candLinked :: "nat \<Rightarrow> real"
  g_candAge :: "nat \<Rightarrow> nat"
  g_hops :: "nat \<Rightarrow> nat"
  g_hopStage :: "nat \<Rightarrow> nat \<Rightarrow> nat"
  g_qtype :: "nat \<Rightarrow> nat \<Rightarrow> nat \<Rightarrow> nat"
  g_uuid :: "nat \<Rightarrow> nat \<Rightarrow> nat \<Rightarrow> string"
  g_verb :: "nat \<Rightarrow> nat \<Rightarrow> nat \<Rightarrow> string"
  g_noun :: "nat \<Rightarrow> nat \<Rightarrow> nat \<Rightarrow> string"
  g_required :: "nat \<Rightarrow> nat \<Rightarrow> nat \<Rightarrow> real"
  g_adjectives :: "nat \<Rightarrow> nat \<Rightarrow> nat \<Rightarrow> string list"
  g_sectionId :: "nat \<Rightarrow> nat \<Rightarrow> string"

definition STAGES :: "CandidateStage list" where
  "STAGES = [applied, screen, tech, offer, hired, rejected]"

definition pick :: "'a list \<Rightarrow> nat \<Rightarrow> 'a" where
  "pick xs d = xs ! (d mod length xs)"

text \<open>Decimal digits of a number, for the template string \<^verbatim>\<open>`${slugBase}-${i + 1}`\<close>.\<close>

fun show_nat :: "nat \<Rightarrow> string" where
  "show_nat n =
     (if n < 10 then [char_of (48 + n)] else show_nat (n div 10) @ [char_of (48 + n mod 10)])"

definition is_slug_char :: "char \<Rightarrow> bool" where
  "is_slug_char c =
     (let n = (of_char c :: nat) in (97 \<le> n \<and> n \<le> 122) \<or> (48 \<le> n \<and> n \<le> 57))"

text \<open>\<^verbatim>\<open>.replace(/[^a-z0-9]+/g, '-')\<close>: every maximal run of other characters becomes one dash.\<close>

function dash_runs :: "string \<Rightarrow> string" where
  "dash_runs [] = []"
| "dash_runs (c # cs) =
     (if is_slug_char c then c # dash_runs cs
      else CHR ''-'' # dash_runs (dropWhile (\<lambda>d. \<not> is_slug_char d) cs))"
  by pat_completeness auto
termination
  by (relation "measure length") (auto simp: less_Suc_eq_le length_dropWhile_le)

text \<open>\<^verbatim>\<open>.replace(/(^-|-$)/g, '')\<close>: one leading and one trailing dash are removed.\<close>

definition trim_dash :: "string \<Rightarrow> string" where
  "trim_dash s =
     (let s1 = (case s of [] \<Rightarrow> [] | c # r \<Rightarrow> if c = CHR ''-'' then r else s)
      in if s1 \<noteq> [] \<and> last s1 = CHR ''-'' then butlast s1 else s1)"

definition seed_job :: "SeedDraws \<Rightarrow> nat \<Rightarrow> Job" where
  "seed_job g i =
     (let title = g_jobTitle g i;
          slugBase = trim_dash (dash_runs (toLowerCase title));
          slug = slugBase @ ''-'' @ show_nat (i + 1)
      in \<lparr>j_id = i + 1, j_title = title, j_slug = slug,
          j_status = (if g_jobStatus g i < 75 / 100 then active else archived),
          j_tags = g_jobTags g i, j_order = int i,
          j_createdAt = g_now g - int (g_jobAge g i mod 2592000001),
          j_updatedAt = g_now g\<rparr>)"

definition seed_jobs :: "SeedDraws \<Rightarrow> Job list" where
  "seed_jobs g = map (seed_job g) [0..<25]"

definition seed_candidate :: "SeedDraws \<Rightarrow> Job list \<Rightarrow> nat \<Rightarrow> Candidate" where
  "seed_candidate g js i =
     (let job = pick js (g_candJob g i);
          name = g_candName g i;
          email = toLowerCase (g_candEmail g i name);
          stage = pick STAGES (g_candStage g i)
      in \<lparr>c_id = i + 1,
          c_jobId = (if g_candLinked g i < 9 / 10 then Some (j_id job) else None),
          c_name = name, c_email = email, c_stage = stage,
          c_createdAt = g_now g - int (g_candAge g i mod 5184000001),
          c_updatedAt = g_now g\<rparr>)"

definition seed_candidates :: "SeedDraws \<Rightarrow> Job list \<Rightarrow> Candidate list" where
  "seed_candidates g js = map (seed_candidate g js) [0..<1000]"

text \<open>The inner loop over the hops of one candidate; \<open>h\<close> counts up, \<open>k\<close> hops remain.\<close>

fun hop_events ::
  "Candidate \<Rightarrow> (nat \<Rightarrow> nat) \<Rightarrow> nat \<Rightarrow> nat \<Rightarrow> CandidateStage \<Rightarrow> CandidateTimelineEvent list"
where
  "hop_events c nxt h 0 current = []"
| "hop_events c nxt h (Suc k) current =
     (let next = pick STAGES (nxt h)
      in \<lparr>e_candidateId = c_id c, e_type = stage_change, e_from = Some current,
           e_to = Some next, e_note = None,
           e_at = c_createdAt c + (int h + 1) * 86400000 div 2\<rparr>
         # hop_events c nxt (Suc h) k next)"

definition candidate_events ::
  "SeedDraws \<Rightarrow> nat \<times> Candidate \<Rightarrow> CandidateTimelineEvent list" where
  "candidate_events g ic =
     (let i = fst ic; c = snd ic; hops = 1 + g_hops g i mod 4
      in \<lparr>e_candidateId = c_id c, e_type = stage_change, e_from = None,
           e_to = Some applied, e_note = None, e_at = c_createdAt c\<rparr>
         # hop_events c (g_hopStage g i) 0 hops applied)"

definition seed_timeline :: "SeedDraws \<Rightarrow> Candidate list \<Rightarrow> CandidateTimelineEvent list" where
  "seed_timeline g cs = concat (map (candidate_events g) (enumerate 0 cs))"

definition seed_question :: "SeedDraws \<Rightarrow> nat \<Rightarrow> nat \<Rightarrow> nat \<Rightarrow> AssessmentQuestion" where
  "seed_question g idx sidx q =
     (let qtype = pick [single, multi, short, long, numeric] (g_qtype g idx sidx q)
      in \<lparr>q_id = g_uuid g idx sidx q, q_type = qtype,
          q_label = g_verb g idx sidx q @ '' '' @ g_noun g idx sidx q @ ''?'',
          q_required = Some (g_required g idx sidx q < 6 / 10),
          q_options = (if qtype = single \<or> qtype = multi
                       then Some (g_adjectives g idx sidx q) else None),
          q_maxLength = (if qtype = short \<or> qtype = long
                         then Some (if qtype = short then 120 else 600) else None),
          q_min = (if qtype = numeric then Some 0 else None),
          q_max = (if qtype = numeric then Some 10 else None),
          q_showIf = None\<rparr>)"

definition seed_section :: "SeedDraws \<Rightarrow> nat \<Rightarrow> nat \<Rightarrow> AssessmentSection" where
  "seed_section g idx sidx =
     (let qs = map (seed_question g idx sidx) [0..<5];
          qs' = (if length qs > 2
                 then (let dep = qs ! 0
                       in qs @ [\<lparr>q_id = g_uuid g idx sidx 5, q_type = short,
                                 q_label = ''Why?'', q_required = Some True,
                                 q_options = None, q_maxLength = None, q_min = None,
                                 q_max = None,
                                 q_showIf = Some \<lparr>si_questionId = q_id dep,
                                   si_equals = StrV (case q_options dep of
                                       None \<Rightarrow> ''Yes''
                                     | Some [] \<Rightarrow> ''Yes''
                                     | Some (x # _) \<Rightarrow> x)\<rparr>\<rparr>])
                 else qs)
      in \<lparr>s_id = g_sectionId g idx sidx, s_title = ''Section '' @ show_nat (sidx + 1),
          s_questions = qs'\<rparr>)"

definition seed_assessment :: "SeedDraws \<Rightarrow> nat \<times> Job \<Rightarrow> Assessment" where
  "seed_assessment g ij =
     (let idx = fst ij; job = snd ij; sectionCount = 2 + idx mod 2
      in \<lparr>a_id = j_id job, a_jobId = j_id job, a_title = j_title job @ '' Assessment'',
          a_sections = map (seed_section g idx) [0..<sectionCount],
          a_updatedAt = g_now g\<rparr>)"

definition seed_assessments :: "SeedDraws \<Rightarrow> Job list \<Rightarrow> Assessment list" where
  "seed_assessments g js = map (seed_assessment g) (enumerate 0 (take 3 js))"

definition ensureSeed :: "SeedDraws \<Rightarrow> Store \<Rightarrow> Store" where
  "ensureSeed g s =
     (if seeded s then s
      else (let js = seed_jobs g;
                s1 = s\<lparr>jobs := bulkPut j_id js (jobs s)\<rparr>;
                cs = seed_candidates g js;
                s2 = s1\<lparr>candidates := bulkPut c_id cs (candidates s1)\<rparr>;
                s3 = s2\<lparr>timelines := timelines s2 @ seed_timeline g cs\<rparr>;
                s4 = s3\<lparr>assessments := bulkPut a_id (seed_assessments g js) (assessments s3)\<rparr>
            in s4\<lparr>meta := (meta s4)(''seeded'' \<mapsto> True)\<rparr>))"

subsection \<open>Requests and responses\<close>

text \<open>
  A handler returns a value (sent with status 200), or a \<^verbatim>\<open>new Response(code, {}, {message})\<close>,
  or is rejected by an exception of the store that it does not catch.
\<close>

datatype 'a Response = Returned 'a | Response nat string | Thrown

record Env =
  seed_draws :: SeedDraws
  rnd :: real
  now :: "nat \<Rightarrow> int"

text \<open>
  \<open>rnd\<close> is the value of the \<^verbatim>\<open>Math.random()\<close> call compared with the failure rate;
  \<open>now env k\<close> is the reading of the \<open>k\<close>-th \<^verbatim>\<open>Date.now()\<close> in the handler's text.
\<close>

definition JobStatus_str :: "JobStatus \<Rightarrow> string" where
  "JobStatus_str st = (case st of active \<Rightarrow> ''active'' | archived \<Rightarrow> ''archived'')"

definition CandidateStage_str :: "CandidateStage \<Rightarrow> string" where
  "CandidateStage_str st =
     (case st of applied \<Rightarrow> ''applied'' | screen \<Rightarrow> ''screen'' | tech \<Rightarrow> ''tech''
      | offer \<Rightarrow> ''offer'' | hired \<Rightarrow> ''hired'' | rejected \<Rightarrow> ''rejected'')"

subsection \<open>\<^verbatim>\<open>GET /jobs\<close>\<close>

text \<open>The query parameters after the handler has parsed them.\<close>

record JobsQuery =
  jq_search :: string
  jq_status :: string
  jq_page :: int
  jq_pageSize :: int
  jq_sort :: string
  jq_tags :: "string list"

definition job_matches_search :: "string \<Rightarrow> Job \<Rightarrow> bool" where
  "job_matches_search searchLower j =
     (if searchLower \<noteq> []
      then includes_str (toLowerCase (j_title j)) searchLower \<or> includes_str (j_slug j) searchLower
      else True)"

definition jobs_filter :: "JobsQuery \<Rightarrow> Job list \<Rightarrow> Job list" where
  "jobs_filter q all =
     (let searchLower = toLowerCase (jq_search q)
      in filter (\<lambda>j. if jq_tags q \<noteq> [] then list_ex (\<lambda>t. t \<in> set (jq_tags q)) (j_tags j) else True)
          (filter (job_matches_search searchLower)
            (filter (\<lambda>j. if jq_status q \<noteq> [] then JobStatus_str (j_status j) = jq_status q else True)
               all)))"

definition jobs_sort :: "string \<Rightarrow> Job list \<Rightarrow> Job list" where
  "jobs_sort srt items =
     (let items1 = (if srt = ''order'' then sort_key j_order items else items)
      in if srt = ''createdAt:desc'' then sort_key (\<lambda>j. - j_createdAt j) items1 else items1)"

definition get_jobs :: "Env \<Rightarrow> JobsQuery \<Rightarrow> Store \<Rightarrow> Job Page Response \<times> Store" where
  "get_jobs env q s0 =
     (let s = ensureSeed (seed_draws env) s0;
          items = jobs_sort (jq_sort q) (jobs_filter q (jobs s))
      in (Returned (paginate items (jq_page q) (jq_pageSize q)), s))"

subsection \<open>\<^verbatim>\<open>POST /jobs\<close>\<close>

record JobBody =
  jb_title :: string
  jb_slug :: string
  jb_tags :: "string list option"

text \<open>\<^verbatim>\<open>db.jobs.orderBy('order')\<close>: rows by \<open>order\<close>, rows of equal \<open>order\<close> by primary key.\<close>

definition orderBy_order :: "Job list \<Rightarrow> Job list" where
  "orderBy_order t = sort_key j_order t"

definition slug_exists :: "string \<Rightarrow> Job list \<Rightarrow> bool" where
  "slug_exists sl t = list_ex (\<lambda>j. j_slug j = sl) t"

definition post_jobs :: "Env \<Rightarrow> JobBody \<Rightarrow> Store \<Rightarrow> Job Response \<times> Store" where
  "post_jobs env body s0 =
     (let s = ensureSeed (seed_draws env) s0;
          now0 = now env 0;
          lastOrder = (case orderBy_order (jobs s) of [] \<Rightarrow> - 1 | x # xs \<Rightarrow> j_order (last (x # xs)));
          newId = length (jobs s) + 1
      in if slug_exists (jb_slug body) (jobs s) then (Response 400 ''Slug must be unique'', s)
         else
           (let job = \<lparr>j_id = newId, j_title = jb_title body, j_slug = jb_slug body,
                       j_status = active,
                       j_tags = (case jb_tags body of None \<Rightarrow> [] | Some ts \<Rightarrow> ts),
                       j_order = lastOrder + 1, j_createdAt = now0, j_updatedAt = now0\<rparr>
            in if rnd env < 8 / 100 then (Response 500 ''Random failure (simulated)'', s)
               else (case tadd j_id job (jobs s) of
                       None \<Rightarrow> (Thrown, s)
                     | Some t \<Rightarrow> (Returned job, s\<lparr>jobs := t\<rparr>))))"

subsection \<open>\<^verbatim>\<open>PATCH /jobs/:id\<close>\<close>

text \<open>
  The request body, any subset of the fields of a Job. A sent \<^verbatim>\<open>updatedAt\<close> is always
  overwritten by the handler and is left out.
\<close>

record JobPatch =
  jp_id :: "nat option"
  jp_title :: "string option"
  jp_slug :: "string option"
  jp_status :: "JobStatus option"
  jp_tags :: "string list option"
  jp_order :: "int option"
  jp_createdAt :: "int option"

definition or_else :: "'a option \<Rightarrow> 'a \<Rightarrow> 'a" where
  "or_else p v = (case p of None \<Rightarrow> v | Some w \<Rightarrow> w)"

text \<open>\<^verbatim>\<open>{ ...job, ...patch, updatedAt }\<close>\<close>

definition spread_job :: "Job \<Rightarrow> JobPatch \<Rightarrow> int \<Rightarrow> Job" where
  "spread_job job patch t =
     \<lparr>j_id = or_else (jp_id patch) (j_id job), j_title = or_else (jp_title patch) (j_title job),
      j_slug = or_else (jp_slug patch) (j_slug job),
      j_status = or_else (jp_status patch) (j_status job),
      j_tags = or_else (jp_tags patch) (j_tags job),
      j_order = or_else (jp_order patch) (j_order job),
      j_createdAt = or_else (jp_createdAt patch) (j_createdAt job), j_updatedAt = t\<rparr>"

text \<open>\<^verbatim>\<open>patch.slug && patch.slug !== job.slug\<close>: an absent or empty slug is falsy.\<close>

definition slug_changes :: "JobPatch \<Rightarrow> Job \<Rightarrow> bool" where
  "slug_changes patch job =
     (case jp_slug patch of None \<Rightarrow> False | Some sl \<Rightarrow> sl \<noteq> [] \<and> sl \<noteq> j_slug job)"

definition patch_job :: "Env \<Rightarrow> nat \<Rightarrow> JobPatch \<Rightarrow> Store \<Rightarrow> Job Response \<times> Store" where
  "patch_job env i patch s0 =
     (let s = ensureSeed (seed_draws env) s0
      in case tget j_id i (jobs s) of
           None \<Rightarrow> (Response 404 ''Not found'', s)
         | Some job \<Rightarrow>
             (let updated = spread_job job patch (now env 0)
              in if slug_changes patch job \<and> slug_exists (or_else (jp_slug patch) []) (jobs s)
                 then (Response 400 ''Slug must be unique'', s)
                 else if rnd env < 8 / 100 then (Response 500 ''Random failure (simulated)'', s)
                 else (Returned updated, s\<lparr>jobs := tput j_id updated (jobs s)\<rparr>)))"

subsection \<open>\<^verbatim>\<open>PATCH /jobs/:id/reorder\<close>\<close>

text \<open>
  \<^verbatim>\<open>xs.splice(start, 0, x)\<close> for an integer \<open>start\<close>: the start index is clamped as for
  \<^verbatim>\<open>slice\<close>.
\<close>

definition splice_insert :: "'a list \<Rightarrow> int \<Rightarrow> 'a \<Rightarrow> 'a list" where
  "splice_insert xs start x =
     (let a = slice_index (length xs) start in take a xs @ [x] @ drop a xs)"

text \<open>The updates \<^verbatim>\<open>db.jobs.update(j.id, { order: idx })\<close> of one transaction, in order.\<close>

definition write_orders :: "Job list \<Rightarrow> Job list \<Rightarrow> Job list" where
  "write_orders others t =
     foldl (\<lambda>acc ij. tupdate j_id (j_id (snd ij)) (\<lambda>r. r\<lparr>j_order := int (fst ij)\<rparr>) acc)
       t (enumerate 0 others)"

definition reorder_job :: "Env \<Rightarrow> nat \<Rightarrow> int \<Rightarrow> int \<Rightarrow> Store \<Rightarrow> unit Response \<times> Store" where
  "reorder_job env i fromOrder toOrder s0 =
     (let s = ensureSeed (seed_draws env) s0
      in if rnd env < 1 / 10 then (Response 500 ''Reorder failed (simulated)'', s)
         else
           (let all = orderBy_order (jobs s)
            in case find (\<lambda>j. j_id j = i) all of
                 None \<Rightarrow> (Response 404 ''Not found'', s)
               | Some moved \<Rightarrow>
                   (let others = sort_key j_order (filter (\<lambda>j. j_id j \<noteq> i) all);
                        others' = splice_insert others toOrder moved
                    in (Returned (), s\<lparr>jobs := write_orders others' (jobs s)\<rparr>))))"

subsection \<open>\<^verbatim>\<open>GET /candidates\<close>\<close>

record CandidatesQuery =
  cq_search :: string
  cq_stage :: string
  cq_page :: int
  cq_pageSize :: int

definition candidate_matches_search :: "string \<Rightarrow> Candidate \<Rightarrow> bool" where
  "candidate_matches_search searchLower c =
     (includes_str (toLowerCase (c_name c)) searchLower
      \<or> includes_str (toLowerCase (c_email c)) searchLower)"

definition candidates_filter :: "CandidatesQuery \<Rightarrow> Candidate list \<Rightarrow> Candidate list" where
  "candidates_filter q all =
     (let searchLower = toLowerCase (cq_search q);
          all1 = (if cq_stage q \<noteq> []
                  then filter (\<lambda>c. CandidateStage_str (c_stage c) = cq_stage q) all else all)
      in if searchLower \<noteq> [] then filter (candidate_matches_search searchLower) all1 else all1)"

definition get_candidates ::
  "Env \<Rightarrow> CandidatesQuery \<Rightarrow> Store \<Rightarrow> Candidate Page Response \<times> Store" where
  "get_candidates env q s0 =
     (let s = ensureSeed (seed_draws env) s0;
          all = sort_key (\<lambda>c. - c_createdAt c) (candidates_filter q (candidates s))
      in (Returned (paginate all (cq_page q) (cq_pageSize q)), s))"

subsection \<open>\<^verbatim>\<open>POST /candidates\<close>\<close>

record CandidateBody =
  cb_jobId :: "nat option"
  cb_name :: string
  cb_email :: string

definition post_candidates ::
  "Env \<Rightarrow> CandidateBody \<Rightarrow> Store \<Rightarrow> Candidate Response \<times> Store" where
  "post_candidates env body s0 =
     (let s = ensureSeed (seed_draws env) s0;
          newId = length (candidates s) + 1;
          cand = \<lparr>c_id = newId, c_jobId = cb_jobId body, c_name = cb_name body,
                  c_email = cb_email body, c_stage = applied, c_createdAt = now env 0,
                  c_updatedAt = now env 1\<rparr>
      in if rnd env < 8 / 100 then (Response 500 ''Random failure (simulated)'', s)
         else (case tadd c_id cand (candidates s) of
                 None \<Rightarrow> (Thrown, s)
               | Some t \<Rightarrow>
                   (Returned cand,
                    s\<lparr>candidates := t,
                      timelines := timelines s @
                        [\<lparr>e_candidateId = newId, e_type = stage_change, e_from = None,
                          e_to = Some applied, e_note = None, e_at = now env 2\<rparr>]\<rparr>)))"

subsection \<open>\<^verbatim>\<open>PATCH /candidates/:id\<close>\<close>

text \<open>
  The request body, any subset of the fields of a Candidate; \<open>cp_jobId = Some None\<close> sends
  \<^verbatim>\<open>jobId: null\<close>. A sent \<^verbatim>\<open>updatedAt\<close> is always overwritten by the handler.
\<close>

record CandidatePatch =
  cp_id :: "nat option"
  cp_jobId :: "nat option option"
  cp_name :: "string option"
  cp_email :: "string option"
  cp_stage :: "CandidateStage option"
  cp_createdAt :: "int option"

definition spread_candidate :: "Candidate \<Rightarrow> CandidatePatch \<Rightarrow> int \<Rightarrow> Candidate" where
  "spread_candidate cand patch t =
     \<lparr>c_id = or_else (cp_id patch) (c_id cand), c_jobId = or_else (cp_jobId patch) (c_jobId cand),
      c_name = or_else (cp_name patch) (c_name cand),
      c_email = or_else (cp_email patch) (c_email cand),
      c_stage = or_else (cp_stage patch) (c_stage cand),
      c_createdAt = or_else (cp_createdAt patch) (c_createdAt cand), c_updatedAt = t\<rparr>"

text \<open>\<^verbatim>\<open>patch.stage && patch.stage !== cand.stage\<close>: every stage name is a truthy string.\<close>

definition stage_changes :: "CandidatePatch \<Rightarrow> Candidate \<Rightarrow> bool" where
  "stage_changes patch cand =
     (case cp_stage patch of None \<Rightarrow> False | Some st \<Rightarrow> st \<noteq> c_stage cand)"

definition patch_candidate ::
  "Env \<Rightarrow> nat \<Rightarrow> CandidatePatch \<Rightarrow> Store \<Rightarrow> Candidate Response \<times> Store" where
  "patch_candidate env i patch s0 =
     (let s = ensureSeed (seed_draws env) s0
      in case tget c_id i (candidates s) of
           None \<Rightarrow> (Response 404 ''Not found'', s)
         | Some cand \<Rightarrow>
             (let s1 = (if stage_changes patch cand
                        then s\<lparr>timelines := timelines s @
                               [\<lparr>e_candidateId = i, e_type = stage_change,
                                 e_from = Some (c_stage cand), e_to = cp_stage patch,
                                 e_note = None, e_at = now env 0\<rparr>]\<rparr>
                        else s)
              in if rnd env < 8 / 100 then (Response 500 ''Random failure (simulated)'', s1)
                 else
                   (let updated = spread_candidate cand patch (now env 1)
                    in (Returned updated,
                        s1\<lparr>candidates := tput c_id updated (candidates s1)\<rparr>))))"

subsection \<open>\<^verbatim>\<open>GET /candidates/:id/timeline\<close> and \<^verbatim>\<open>POST /candidates/:id/notes\<close>\<close>

definition get_timeline ::
  "Env \<Rightarrow> nat \<Rightarrow> Store \<Rightarrow> CandidateTimelineEvent list Response \<times> Store" where
  "get_timeline env i s0 =
     (let s = ensureSeed (seed_draws env) s0;
          events = sort_key e_at (filter (\<lambda>e. e_candidateId e = i) (timelines s))
      in (Returned events, s))"

definition is_space :: "char \<Rightarrow> bool" where
  "is_space c = (let n = (of_char c :: nat) in n = 32 \<or> (9 \<le> n \<and> n \<le> 13))"

definition trim :: "string \<Rightarrow> string" where
  "trim s = rev (dropWhile is_space (rev (dropWhile is_space s)))"

definition post_note :: "Env \<Rightarrow> nat \<Rightarrow> string option \<Rightarrow> Store \<Rightarrow> unit Response \<times> Store" where
  "post_note env i body_note s0 =
     (let s = ensureSeed (seed_draws env) s0
      in case body_note of
           None \<Rightarrow> (Response 400 ''Note is required'', s)
         | Some nt \<Rightarrow>
             if nt = [] \<or> trim nt = [] then (Response 400 ''Note is required'', s)
             else (Returned (),
                   s\<lparr>timelines := timelines s @
                       [\<lparr>e_candidateId = i, e_type = note_event, e_from = None, e_to = None,
                         e_note = Some nt, e_at = now env 0\<rparr>]\<rparr>))"

subsection \<open>Assessments\<close>

definition get_assessment :: "Env \<Rightarrow> nat \<Rightarrow> Store \<Rightarrow> Assessment Response \<times> Store" where
  "get_assessment env jobId s0 =
     (let s = ensureSeed (seed_draws env) s0
      in case tget a_id jobId (assessments s) of
           None \<Rightarrow> (Response 404 ''Not found'', s)
         | Some a \<Rightarrow> (Returned a, s))"

definition put_assessment :: "Env \<Rightarrow> nat \<Rightarrow> Assessment \<Rightarrow> Store \<Rightarrow> unit Response \<times> Store" where
  "put_assessment env jobId body s0 =
     (let s = ensureSeed (seed_draws env) s0
      in if rnd env < 8 / 100 then (Response 500 ''Random failure (simulated)'', s)
         else (Returned (),
               s\<lparr>assessments :=
                   tput a_id (body\<lparr>a_id := jobId, a_jobId := jobId, a_updatedAt := now env 0\<rparr>)
                     (assessments s)\<rparr>))"

definition submit_assessment ::
  "Env \<Rightarrow> nat \<Rightarrow> nat \<Rightarrow> (string \<times> AnswerValue) list \<Rightarrow> Store \<Rightarrow> unit Response \<times> Store" where
  "submit_assessment env jobId candidateId responses s0 =
     (let s = ensureSeed (seed_draws env) s0
      in (Returned (),
          s\<lparr>assessmentResponses := assessmentResponses s @
              [\<lparr>r_jobId = jobId, r_candidateId = candidateId, r_responses = responses,
                r_submittedAt = now env 0\<rparr>]\<rparr>))"

text \<open>A response of the client-error or server-error class, or an uncaught exception.\<close>

definition is_failure :: "'a Response \<Rightarrow> bool" where
  "is_failure r = (case r of Returned _ \<Rightarrow> False | Response _ _ \<Rightarrow> True | Thrown \<Rightarrow> True)"

subsection \<open>The specification's wording, for comparison with the code\<close>

text \<open>
  The page of the specification: \<open>total\<close> items before pagination,
  \<open>pages = max(1, ceil(total/pageSize))\<close> in integer arithmetic and
  \<open>data = filtered[(page-1)*pageSize : page*pageSize]\<close>.
\<close>

definition ceil_div :: "int \<Rightarrow> int \<Rightarrow> int" where
  "ceil_div a b = (if a mod b = 0 then a div b else a div b + 1)"

definition range_of :: "'a list \<Rightarrow> nat \<Rightarrow> nat \<Rightarrow> 'a list" where
  "range_of xs a b = drop a (take b xs)"

definition paginate_spec :: "'a list \<Rightarrow> int \<Rightarrow> int \<Rightarrow> 'a Page" where
  "paginate_spec filtered pg ps =
     \<lparr>data = range_of filtered (nat ((pg - 1) * ps)) (nat (pg * ps)), page = pg, pageSize = ps,
      total = int (length filtered), pages = max 1 (ceil_div (int (length filtered)) ps)\<rparr>"

text \<open>
  Case-insensitive substring match of the specification: the search string occurs in
  the field when both are compared without regard to case.
\<close>

definition ci_substring :: "string \<Rightarrow> string \<Rightarrow> bool" where
  "ci_substring search field = sublist (toLowerCase search) (toLowerCase field)"

definition job_search_spec :: "string \<Rightarrow> Job \<Rightarrow> bool" where
  "job_search_spec search j = (ci_substring search (j_title j) \<or> ci_substring search (j_slug j))"

definition candidate_search_spec :: "string \<Rightarrow> Candidate \<Rightarrow> bool" where
  "candidate_search_spec search c =
     (ci_substring search (c_name c) \<or> ci_substring search (c_email c))"

text \<open>The position of a key in a list of keys (the length when it does not occur).\<close>

fun index_of :: "nat \<Rightarrow> nat list \<Rightarrow> nat" where
  "index_of i [] = 0"
| "index_of i (x # xs) = (if x = i then 0 else Suc (index_of i xs))"

text \<open>The \<open>order\<close> stored for a job, if the job is in the table.\<close>

definition order_of :: "nat \<Rightarrow> Job list \<Rightarrow> int option" where
  "order_of i t = map_option j_order (tget j_id i t)"

subsection \<open>A small seeded store for concrete runs\<close>

definition demo_draws :: SeedDraws where
  "demo_draws = \<lparr>g_now = 0, g_jobTitle = (\<lambda>_. ''Engineer''), g_jobStatus = (\<lambda>_. 0),
     g_jobTags = (\<lambda>_. [''remote'']), g_jobAge = (\<lambda>_. 0), g_candJob = (\<lambda>_. 0),
     g_candName = (\<lambda>_. ''Ada Byron''), g_candEmail = (\<lambda>_ _. ''ada@example.com''),
     g_candStage = (\<lambda>_. 0), g_candLinked = (\<lambda>_. 0), g_candAge = (\<lambda>_. 0), g_hops = (\<lambda>_. 0),
     g_hopStage = (\<lambda>_ _. 0), g_qtype = (\<lambda>_ _ _. 0), g_uuid = (\<lambda>_ _ _. ''u''),
     g_verb = (\<lambda>_ _ _. ''parse''), g_noun = (\<lambda>_ _ _. ''bus''), g_required = (\<lambda>_ _ _. 0),
     g_adjectives = (\<lambda>_ _ _. [''Small'']), g_sectionId = (\<lambda>_ _. ''s'')\<rparr>"

definition demo_env :: "real \<Rightarrow> Env" where
  "demo_env r = \<lparr>seed_draws = demo_draws, rnd = r, now = (\<lambda>k. 1000 + int k)\<rparr>"

definition demo_job :: "nat \<Rightarrow> string \<Rightarrow> string \<Rightarrow> int \<Rightarrow> Job" where
  "demo_job i title slug ord =
     \<lparr>j_id = i, j_title = title, j_slug = slug, j_status = active, j_tags = [''remote''],
      j_order = ord, j_createdAt = 10, j_updatedAt = 10\<rparr>"

definition demo_candidate :: Candidate where
  "demo_candidate = \<lparr>c_id = 1, c_jobId = Some 1, c_name = ''Ada Byron'',
     c_email = ''ada@example.com'', c_stage = applied, c_createdAt = 20, c_updatedAt = 20\<rparr>"

definition demo_origin :: CandidateTimelineEvent where
  "demo_origin = \<lparr>e_candidateId = 1, e_type = stage_change, e_from = None, e_to = Some applied,
     e_note = None, e_at = 20\<rparr>"

definition demo_store :: Store where
  "demo_store =
     \<lparr>jobs = [demo_job 1 ''Developer'' ''dev-1'' 0, demo_job 2 ''Operator'' ''ops-2'' 1,
              demo_job 3 ''Tester'' ''qa-3'' 2],
      candidates = [demo_candidate], timelines = [demo_origin], assessments = [],
      assessmentResponses = [], meta = [''seeded'' \<mapsto> True]\<rparr>"

definition stage_patch :: "CandidateStage \<Rightarrow> CandidatePatch" where
  "stage_patch st = \<lparr>cp_id = None, cp_jobId = None, cp_name = None, cp_email = None,
     cp_stage = Some st, cp_createdAt = None\<rparr>"

definition demo_query :: JobsQuery where
  "demo_query = \<lparr>jq_search = [], jq_status = ''active'', jq_page = 1, jq_pageSize = 10,
     jq_sort = ''order'', jq_tags = []\<rparr>"

definition demo_cquery :: CandidatesQuery where
  "demo_cquery = \<lparr>cq_search = ''ada'', cq_stage = [], cq_page = 1, cq_pageSize = 25\<rparr>"

definition search_query :: "string \<Rightarrow> JobsQuery" where
  "search_query s = \<lparr>jq_search = s, jq_status = [], jq_page = 1, jq_pageSize = 10,
     jq_sort = ''order'', jq_tags = []\<rparr>"

definition upper_slug_job :: Job where
  "upper_slug_job = \<lparr>j_id = 4, j_title = ''Manager'', j_slug = ''Dev-Ops'', j_status = active,
     j_tags = [], j_order = 3, j_createdAt = 1000, j_updatedAt = 1000\<rparr>"

definition slug_patch :: "string \<Rightarrow> JobPatch" where
  "slug_patch sl = \<lparr>jp_id = None, jp_title = None, jp_slug = Some sl, jp_status = None,
     jp_tags = None, jp_order = None, jp_createdAt = None\<rparr>"

definition empty_slug_job :: Job where
  "empty_slug_job = \<lparr>j_id = 4, j_title = ''Intern'', j_slug = [], j_status = active,
     j_tags = [], j_order = 3, j_createdAt = 1000, j_updatedAt = 1000\<rparr>"

section \<open>Properties\<close>

subsection \<open>Tables\<close>

lemma has_key_iff: "has_key k i t \<longleftrightarrow> i \<in> k ` set t"
  by (auto simp: has_key_def list_ex_iff)

lemma map_key_insort: "map k (insort_key k r t) = insort (k r) (map k t)"
  by (induction t) auto

lemma map_key_replace: "map k (map (\<lambda>x. if k x = k r then r else x) t) = map k t"
  by (induction t) auto

lemma keys_tput: "k ` set (tput k r t) = insert (k r) (k ` set t)"
proof (cases "has_key k (k r) t")
  case True
  have "k ` set (map (\<lambda>x. if k x = k r then r else x) t) = set (map k t)"
    using map_key_replace [of k r t] by (metis set_map)
  with True show ?thesis by (auto simp: tput_def has_key_iff)
next
  case False
  then show ?thesis by (simp add: tput_def set_insort_key)
qed

lemma wf_tput: "wf_table k t \<Longrightarrow> wf_table k (tput k r t)"
proof (cases "has_key k (k r) t")
  case True
  assume "wf_table k t"
  with True show ?thesis
    unfolding wf_table_def tput_def by (simp only: map_key_replace if_True)
next
  case False
  assume "wf_table k t"
  with False show ?thesis
    unfolding wf_table_def tput_def
    by (simp only: map_key_insort if_False) (simp add: has_key_iff distinct_insort sorted_insort)
qed

lemma wf_bulkPut: "wf_table k t \<Longrightarrow> wf_table k (bulkPut k rs t)"
  unfolding bulkPut_def by (induction rs arbitrary: t) (auto simp: wf_tput)

lemma keys_bulkPut: "k ` set (bulkPut k rs t) = k ` set rs \<union> k ` set t"
  unfolding bulkPut_def
proof (induction rs arbitrary: t)
  case Nil
  then show ?case by simp
next
  case (Cons r rs)
  have "k ` set (foldl (\<lambda>acc r. tput k r acc) (tput k r t) rs)
        = k ` set rs \<union> k ` set (tput k r t)"
    by (rule Cons.IH)
  then show ?case by (auto simp: keys_tput)
qed

lemma length_bulkPut_empty:
  assumes "distinct (map k rs)"
  shows "length (bulkPut k rs []) = length rs"
proof -
  have wf: "wf_table k (bulkPut k rs [])"
    by (rule wf_bulkPut) (simp add: wf_table_def)
  then have "distinct (map k (bulkPut k rs []))" by (simp add: wf_table_def)
  then have "card (set (map k (bulkPut k rs []))) = length (map k (bulkPut k rs []))"
    by (rule distinct_card)
  moreover have "card (set (map k rs)) = length (map k rs)"
    using assms by (rule distinct_card)
  moreover have "set (map k (bulkPut k rs [])) = set (map k rs)"
    by (simp add: keys_bulkPut)
  ultimately show ?thesis by simp
qed

subsection \<open>Seeding\<close>

lemma ensureSeed_seeded: "seeded (ensureSeed g s)"
  by (simp add: ensureSeed_def seeded_def Let_def)

lemma ensureSeed_id: "seeded s \<Longrightarrow> ensureSeed g s = s"
  by (simp add: ensureSeed_def)

lemma seed_jobs_ids: "map j_id (seed_jobs g) = map Suc [0..<25]"
  by (simp add: seed_jobs_def seed_job_def Let_def)

lemma seed_candidates_ids: "map c_id (seed_candidates g js) = map Suc [0..<1000]"
  by (simp add: seed_candidates_def seed_candidate_def Let_def)

lemma seed_assessments_ids: "map a_id (seed_assessments g js) = take 3 (map j_id js)"
proof -
  have "map a_id (seed_assessments g js) = map (j_id \<circ> snd) (enumerate 0 (take 3 js))"
    by (simp add: seed_assessments_def seed_assessment_def Let_def comp_def)
  also have "\<dots> = map j_id (map snd (enumerate 0 (take 3 js)))" by (simp only: map_map)
  also have "\<dots> = map j_id (take 3 js)" by (simp only: map_snd_enumerate)
  finally show ?thesis by (simp add: take_map)
qed

text \<open>
  C9. \<^verbatim>\<open>ensureSeed\<close> is idempotent: on every store a second call in sequence, whatever it
  would have drawn, returns the store of the first call unchanged, because the first call
  leaves the \<open>seeded\<close> flag set; and after two calls on the empty store the tables hold exactly
  25 Jobs, 1000 Candidates and 3 Assessments.
\<close>

theorem ensureSeed_idempotent:
  "ensureSeed g2 (ensureSeed g1 s) = ensureSeed g1 s
   \<and> seeded (ensureSeed g1 s)
   \<and> length (jobs (ensureSeed g2 (ensureSeed g1 empty_store))) = 25
   \<and> length (candidates (ensureSeed g2 (ensureSeed g1 empty_store))) = 1000
   \<and> length (assessments (ensureSeed g2 (ensureSeed g1 empty_store))) = 3"
proof -
  have idem: "ensureSeed g2 (ensureSeed g1 s) = ensureSeed g1 s" for s
    by (rule ensureSeed_id) (rule ensureSeed_seeded)
  have ns: "\<not> seeded empty_store" by (simp add: seeded_def empty_store_def)
  have dj: "distinct (map j_id (seed_jobs g1))"
    by (simp only: seed_jobs_ids) (simp add: distinct_map)
  have lj: "length (seed_jobs g1) = 25" by (simp add: seed_jobs_def)
  have dc: "distinct (map c_id (seed_candidates g1 (seed_jobs g1)))"
    by (simp only: seed_candidates_ids) (simp add: distinct_map)
  have lc: "length (seed_candidates g1 (seed_jobs g1)) = 1000" by (simp add: seed_candidates_def)
  have da: "distinct (map a_id (seed_assessments g1 (seed_jobs g1)))"
    using dj by (simp only: seed_assessments_ids distinct_take)
  have la: "length (seed_assessments g1 (seed_jobs g1)) = 3"
    using lj by (simp add: seed_assessments_def)
  have j: "length (jobs (ensureSeed g1 empty_store)) = 25"
    using ns length_bulkPut_empty [OF dj] lj
    by (simp add: ensureSeed_def Let_def empty_store_def)
  have c: "length (candidates (ensureSeed g1 empty_store)) = 1000"
    using ns length_bulkPut_empty [OF dc] lc
    by (simp add: ensureSeed_def Let_def empty_store_def)
  have a: "length (assessments (ensureSeed g1 empty_store)) = 3"
    using ns length_bulkPut_empty [OF da] la
    by (simp add: ensureSeed_def Let_def empty_store_def)
  show ?thesis
    using j c a by (simp only: idem ensureSeed_seeded simp_thms)
qed


subsection \<open>The concrete store\<close>

lemma demo_seeded: "seeded demo_store"
  by (simp add: seeded_def demo_store_def)

lemma demo_ensureSeed: "ensureSeed g demo_store = demo_store"
  by (rule ensureSeed_id) (rule demo_seeded)

subsection \<open>Reordering\<close>

lemma index_of_append: "i \<notin> set xs \<Longrightarrow> index_of i (xs @ i # ys) = length xs"
  by (induction xs) auto

lemma index_of_self: "distinct xs \<Longrightarrow> map (\<lambda>i. index_of i xs) xs = [0..<length xs]"
proof (induction xs)
  case Nil
  then show ?case by simp
next
  case (Cons x xs)
  then have "map (\<lambda>i. index_of i (x # xs)) xs = map (\<lambda>i. Suc (index_of i xs)) xs"
    by auto
  also have "\<dots> = map Suc (map (\<lambda>i. index_of i xs) xs)" by simp
  also have "\<dots> = map Suc [0..<length xs]" using Cons by simp
  also have "\<dots> = [Suc 0..<Suc (length xs)]" by (simp only: map_Suc_upt)
  finally show ?case by (simp add: upt_conv_Cons del: upt_Suc)
qed

lemma write_orders_from:
  "distinct (map j_id os) \<Longrightarrow>
   foldl (\<lambda>acc ij. tupdate j_id (j_id (snd ij)) (\<lambda>r. r\<lparr>j_order := int (fst ij)\<rparr>) acc)
       t (enumerate k os)
   = map (\<lambda>r. if j_id r \<in> j_id ` set os
              then r\<lparr>j_order := int (k + index_of (j_id r) (map j_id os))\<rparr> else r) t"
proof (induction os arbitrary: t k)
  case Nil
  then show ?case by simp
next
  case (Cons x os)
  from Cons.prems have d: "distinct (map j_id os)" and nx: "j_id x \<notin> j_id ` set os"
    by auto
  let ?step = "\<lambda>acc ij. tupdate j_id (j_id (snd ij)) (\<lambda>r. r\<lparr>j_order := int (fst ij)\<rparr>) acc"
  have "foldl ?step t (enumerate k (x # os))
        = foldl ?step (tupdate j_id (j_id x) (\<lambda>r. r\<lparr>j_order := int k\<rparr>) t) (enumerate (Suc k) os)"
    by simp
  also have "\<dots> = map (\<lambda>r. if j_id r \<in> j_id ` set os
              then r\<lparr>j_order := int (Suc k + index_of (j_id r) (map j_id os))\<rparr> else r)
            (tupdate j_id (j_id x) (\<lambda>r. r\<lparr>j_order := int k\<rparr>) t)"
    by (rule Cons.IH [OF d])
  also have "\<dots> = map (\<lambda>r. if j_id r \<in> j_id ` set (x # os)
              then r\<lparr>j_order := int (k + index_of (j_id r) (map j_id (x # os)))\<rparr> else r) t"
    unfolding tupdate_def map_map by (rule map_cong) (use nx in auto)
  finally show ?case .
qed

lemma write_orders_perm:
  assumes d: "distinct (map j_id os)" and s: "j_id ` set t \<subseteq> j_id ` set os"
  shows "write_orders os t = map (\<lambda>r. r\<lparr>j_order := int (index_of (j_id r) (map j_id os))\<rparr>) t"
proof -
  have "write_orders os t
        = map (\<lambda>r. if j_id r \<in> j_id ` set os
              then r\<lparr>j_order := int (0 + index_of (j_id r) (map j_id os))\<rparr> else r) t"
    unfolding write_orders_def by (rule write_orders_from [OF d])
  also have "\<dots> = map (\<lambda>r. r\<lparr>j_order := int (index_of (j_id r) (map j_id os))\<rparr>) t"
    using s by (intro map_cong) auto
  finally show ?thesis .
qed

lemma image_mset_int:
  "image_mset (\<lambda>i. int (g i)) (mset xs) = mset (map int (map g xs))"
  by (simp add: multiset.map_comp comp_def)

lemma orders_after_write:
  assumes d: "distinct (map j_id os)" and m: "mset (map j_id os) = mset (map j_id t)"
  shows "mset (map j_order (write_orders os t)) = mset (map int [0..<length t])"
proof -
  have sub: "j_id ` set t \<subseteq> j_id ` set os"
    using m by (metis set_map set_mset_mset subset_refl)
  have len: "length os = length t"
    using m by (metis length_map size_mset)
  have "map j_order (write_orders os t)
        = map (\<lambda>i. int (index_of i (map j_id os))) (map j_id t)"
    by (simp add: write_orders_perm [OF d sub] comp_def)
  then have "mset (map j_order (write_orders os t))
        = image_mset (\<lambda>i. int (index_of i (map j_id os))) (mset (map j_id t))"
    by (simp only: mset_map)
  also have "\<dots> = image_mset (\<lambda>i. int (index_of i (map j_id os))) (mset (map j_id os))"
    by (simp only: m)
  also have "\<dots> = mset (map int (map (\<lambda>i. index_of i (map j_id os)) (map j_id os)))"
    by (rule image_mset_int)
  also have "\<dots> = mset (map int [0..<length t])"
    using index_of_self [OF d] len by simp
  finally show ?thesis .
qed

lemma tget_map_keep:
  assumes "\<And>r. j_id (f r) = j_id r"
  shows "tget j_id i (map f t) = map_option f (tget j_id i t)"
  unfolding tget_def using assms by (induction t) auto

lemma order_after_write:
  assumes d: "distinct (map j_id os)" and s: "j_id ` set t \<subseteq> j_id ` set os"
    and i: "i \<in> j_id ` set t"
  shows "order_of i (write_orders os t) = Some (int (index_of i (map j_id os)))"
proof -
  from i obtain r where r: "tget j_id i t = Some r"
    unfolding tget_def by (cases "find (\<lambda>r. j_id r = i) t") (auto simp: find_None_iff)
  then have "j_id r = i"
    unfolding tget_def by (auto simp: find_Some_iff)
  with r show ?thesis
    unfolding order_of_def write_orders_perm [OF d s]
    by (subst tget_map_keep) auto
qed


lemma filter_key_single:
  "distinct (map k t) \<Longrightarrow> m \<in> set t \<Longrightarrow> filter (\<lambda>r. k r = k m) t = [m]"
proof (induction t)
  case Nil
  then show ?case by simp
next
  case (Cons x t)
  show ?case
  proof (cases "x = m")
    case True
    with Cons.prems have "k m \<notin> k ` set t" by simp
    then have "\<forall>r\<in>set t. k r \<noteq> k m" by (metis imageI)
    then have "filter (\<lambda>r. k r = k m) t = []" by (simp add: filter_empty_conv)
    with True show ?thesis by simp
  next
    case False
    with Cons.prems have "m \<in> set t" "k x \<noteq> k m" by auto
    with Cons show ?thesis by simp
  qed
qed

lemma slice_index_le: "slice_index len i \<le> len"
  by (auto simp: slice_index_def max_def min_def)

lemma slice_index_int:
  "int (slice_index len i) = (if i < 0 then max (int len + i) 0 else min i (int len))"
  by (auto simp: slice_index_def max_def min_def)

lemma reorder_success:
  fixes t :: "Job list" and toOrder :: int and i :: nat
  assumes wf: "distinct (map j_id t)"
    and f: "find (\<lambda>j. j_id j = i) (orderBy_order t) = Some moved"
  defines "others \<equiv> sort_key j_order (filter (\<lambda>j. j_id j \<noteq> i) (orderBy_order t))"
  defines "a \<equiv> slice_index (length others) toOrder"
  shows "mset (map j_order (write_orders (splice_insert others toOrder moved) t))
           = mset (map int [0..<length t])"
    and "order_of i (write_orders (splice_insert others toOrder moved) t)
           = Some (int (slice_index (length t - 1) toOrder))"
    and "length (write_orders (splice_insert others toOrder moved) t) = length t"
proof -
  let ?os = "splice_insert others toOrder moved"
  from f have mid: "j_id moved = i" and "moved \<in> set (orderBy_order t)"
    by (auto simp: find_Some_iff in_set_conv_nth)
  then have mt: "moved \<in> set t" by (simp add: orderBy_order_def)
  have single: "filter (\<lambda>r. j_id r = i) t = [moved]"
    using filter_key_single [OF wf mt] mid by simp
  have mo: "mset others = filter_mset (\<lambda>j. j_id j \<noteq> i) (mset t)"
    by (simp add: others_def orderBy_order_def)
  have "mset ?os = mset (take a others) + mset (drop a others) + {#moved#}"
    by (simp add: splice_insert_def a_def Let_def)
  also have "\<dots> = mset (take a others @ drop a others) + {#moved#}"
    by (simp only: mset_append)
  also have "\<dots> = mset others + {#moved#}" by (simp only: append_take_drop_id)
  also have "\<dots> = filter_mset (\<lambda>j. j_id j \<noteq> i) (mset t) + mset (filter (\<lambda>r. j_id r = i) t)"
    by (simp only: mo single) simp
  also have "\<dots> = mset t"
    using multiset_partition [of "mset t" "\<lambda>j. j_id j \<noteq> i"] by simp
  finally have perm: "mset ?os = mset t" .
  then have pk: "mset (map j_id ?os) = mset (map j_id t)" by (simp only: mset_map)
  then have d: "distinct (map j_id ?os)"
    using wf mset_eq_imp_distinct_iff [OF pk] by simp
  have sub: "j_id ` set t \<subseteq> j_id ` set ?os"
    using mset_eq_setD [OF perm] by simp
  show "mset (map j_order (write_orders ?os t)) = mset (map int [0..<length t])"
    by (rule orders_after_write [OF d pk])
  have lo: "length others = length t - 1"
  proof -
    have "length t = size (mset t)" by simp
    also have "\<dots> = size (mset ?os)" by (simp only: perm)
    also have "\<dots> = length (take a others @ [moved] @ drop a others)"
      by (simp add: splice_insert_def a_def Let_def)
    also have "\<dots> = length (take a others @ drop a others) + 1" by simp
    also have "\<dots> = length others + 1" by (simp only: append_take_drop_id)
    finally show ?thesis by simp
  qed
  have ale: "a \<le> length others" unfolding a_def by (rule slice_index_le)
  have notin: "i \<notin> set (map j_id (take a others))"
  proof
    assume "i \<in> set (map j_id (take a others))"
    then obtain r where "r \<in> set (take a others)" "j_id r = i" by auto
    then have "r \<in> set others" by (meson in_set_takeD)
    then have "j_id r \<noteq> i" by (simp add: others_def)
    with \<open>j_id r = i\<close> show False by simp
  qed
  have "map j_id ?os = map j_id (take a others) @ i # map j_id (drop a others)"
    by (simp add: splice_insert_def a_def Let_def mid)
  then have "index_of i (map j_id ?os) = length (map j_id (take a others))"
    using index_of_append [OF notin] by simp
  also have "\<dots> = a" using ale by simp
  finally have ix: "index_of i (map j_id ?os) = slice_index (length t - 1) toOrder"
    by (simp add: a_def lo)
  have "i \<in> j_id ` set t" using mt mid by auto
  from order_after_write [OF d sub this] ix
  show "order_of i (write_orders ?os t) = Some (int (slice_index (length t - 1) toOrder))"
    by simp
  show "length (write_orders ?os t) = length t"
    by (simp add: write_orders_perm [OF d sub])
qed


lemma wf_ensureSeed_jobs: "wf_table j_id (jobs s) \<Longrightarrow> wf_table j_id (jobs (ensureSeed g s))"
  by (simp add: ensureSeed_def Let_def wf_bulkPut)

text \<open>
  C3 (as amended). On every store whose Jobs table has pairwise distinct primary keys,
  after a successful Reorder Job the multiset of \<open>order\<close> values of the \<open>n\<close> jobs of the
  table is exactly \<open>{0, ..., n-1}\<close>, and the moved job is at the position at which
  \<^verbatim>\<open>splice\<close> inserts it: \<open>toOrder\<close> itself when \<open>0 \<le> toOrder \<le> n-1\<close>, the last position
  \<open>n-1\<close> when \<open>toOrder\<close> is larger, and \<open>max (n-1+toOrder) 0\<close> when \<open>toOrder\<close> is negative.
\<close>

theorem reorder_orders_dense:
  assumes wf: "wf_table j_id (jobs s0)"
    and ok: "fst (reorder_job env i fromOrder toOrder s0) = Returned ()"
  shows "mset (map j_order (jobs (snd (reorder_job env i fromOrder toOrder s0))))
           = mset (map int [0..<length (jobs (snd (reorder_job env i fromOrder toOrder s0)))])
       \<and> length (jobs (snd (reorder_job env i fromOrder toOrder s0)))
           = length (jobs (ensureSeed (seed_draws env) s0))
       \<and> order_of i (jobs (snd (reorder_job env i fromOrder toOrder s0)))
           = Some (if toOrder < 0
                   then max (int (length (jobs (ensureSeed (seed_draws env) s0))) - 1 + toOrder) 0
                   else min toOrder (int (length (jobs (ensureSeed (seed_draws env) s0))) - 1))"
proof -
  define s where "s = ensureSeed (seed_draws env) s0"
  define t where "t = jobs s"
  have d: "distinct (map j_id t)"
    using wf_ensureSeed_jobs [OF wf] by (simp add: t_def s_def wf_table_def)
  from ok obtain moved where f: "find (\<lambda>j. j_id j = i) (orderBy_order t) = Some moved"
    by (auto simp: reorder_job_def Let_def s_def t_def split: if_splits option.splits)
  define others where "others = sort_key j_order (filter (\<lambda>j. j_id j \<noteq> i) (orderBy_order t))"
  from ok f have res: "snd (reorder_job env i fromOrder toOrder s0)
      = s\<lparr>jobs := write_orders (splice_insert others toOrder moved) t\<rparr>"
    by (auto simp: reorder_job_def Let_def s_def t_def others_def split: if_splits)
  note r = reorder_success [OF d f, of toOrder, folded others_def]
  from f have "moved \<in> set (orderBy_order t)"
    by (auto simp: find_Some_iff in_set_conv_nth)
  then have "t \<noteq> []" by (auto simp: orderBy_order_def)
  then have "int (length t - 1) = int (length t) - 1"
    by (cases t) auto
  then show ?thesis
    unfolding res using r by (simp add: slice_index_int t_def [symmetric] s_def [symmetric])
qed

theorem reorder_orders_dense_witness:
  "wf_table j_id (jobs demo_store)
   \<and> fst (reorder_job (demo_env (1 / 2)) 1 0 2 demo_store) = Returned ()
   \<and> mset (map j_order (jobs (snd (reorder_job (demo_env (1 / 2)) 1 0 2 demo_store))))
       = mset (map int [0..<3])
   \<and> order_of 1 (jobs (snd (reorder_job (demo_env (1 / 2)) 1 0 2 demo_store))) = Some 2"
proof -
  have h1: "wf_table j_id (jobs demo_store)"
    by (simp add: wf_table_def demo_store_def demo_job_def)
  have h2: "fst (reorder_job (demo_env (1 / 2)) 1 0 2 demo_store) = Returned ()"
    by (simp add: reorder_job_def demo_ensureSeed demo_env_def)
       (simp add: demo_store_def demo_job_def orderBy_order_def)
  have n: "length (jobs (ensureSeed (seed_draws (demo_env (1 / 2))) demo_store)) = 3"
    by (simp add: demo_ensureSeed) (simp add: demo_store_def)
  from reorder_orders_dense [OF h1 h2] h1 h2 show ?thesis
    by (simp add: n)
qed

text \<open>
  The claim as stated, with the moved job at position \<open>toOrder\<close> for every request, fails:
  moving job 1 of three jobs to \<open>toOrder = 7\<close> succeeds and stores it at position 2.
\<close>

theorem reorder_beyond_end_is_clamped:
  "reorder_job (demo_env (1 / 2)) 1 0 7 demo_store
     = (Returned (),
        demo_store\<lparr>jobs := [demo_job 1 ''Developer'' ''dev-1'' 2, demo_job 2 ''Operator'' ''ops-2'' 0,
              demo_job 3 ''Tester'' ''qa-3'' 1]\<rparr>)
   \<and> order_of 1 (jobs (snd (reorder_job (demo_env (1 / 2)) 1 0 7 demo_store))) = Some 2
   \<and> order_of 1 (jobs (snd (reorder_job (demo_env (1 / 2)) 1 0 7 demo_store))) \<noteq> Some 7"
  by (simp add: reorder_job_def demo_ensureSeed demo_env_def)
     (simp add: demo_store_def demo_job_def orderBy_order_def splice_insert_def slice_index_def
       write_orders_def tupdate_def order_of_def tget_def enumerate_eq_zip upt_rec)

text \<open>
  C10. The result of Reorder Job, response and store, does not depend on \<open>fromOrder\<close>:
  two requests that differ only in \<open>fromOrder\<close> give the same response and the same store.
\<close>

theorem reorder_ignores_fromOrder:
  "reorder_job env i fromOrder1 toOrder s = reorder_job env i fromOrder2 toOrder s"
  by (simp add: reorder_job_def)

text \<open>
  C2. The claim requires a 404 for every Reorder Job addressed to an unknown id, whatever
  the random draw. The handler draws before it looks the job up: with the draw below
  \<open>0.1\<close> an unknown id is answered 500; only with a draw of at least \<open>0.1\<close> is it
  answered 404.
\<close>

theorem reorder_unknown_id_injected_500:
  "\<not> has_key j_id 99 (jobs demo_store)
   \<and> reorder_job (demo_env (5 / 100)) 99 0 1 demo_store
       = (Response 500 ''Reorder failed (simulated)'', demo_store)
   \<and> reorder_job (demo_env (50 / 100)) 99 0 1 demo_store
       = (Response 404 ''Not found'', demo_store)"
  by (simp add: reorder_job_def demo_ensureSeed demo_env_def)
     (simp add: has_key_def demo_store_def demo_job_def orderBy_order_def)

subsection \<open>Failed requests\<close>

text \<open>
  A failed Create Job, Patch Job, Reorder Job, Create Candidate or Put Assessment leaves
  the store as the seeder left it at the start of the request (the pre-request store when
  that was already seeded), and so does a failed Patch Candidate that sends no stage.
\<close>

lemma post_jobs_failure_unchanged:
  "is_failure (fst (post_jobs env body s0)) \<Longrightarrow>
   snd (post_jobs env body s0) = ensureSeed (seed_draws env) s0"
  by (auto simp: post_jobs_def Let_def is_failure_def split: if_splits option.splits)

lemma patch_job_failure_unchanged:
  "is_failure (fst (patch_job env i patch s0)) \<Longrightarrow>
   snd (patch_job env i patch s0) = ensureSeed (seed_draws env) s0"
  by (auto simp: patch_job_def Let_def is_failure_def split: if_splits option.splits)

lemma reorder_job_failure_unchanged:
  "is_failure (fst (reorder_job env i fromOrder toOrder s0)) \<Longrightarrow>
   snd (reorder_job env i fromOrder toOrder s0) = ensureSeed (seed_draws env) s0"
  by (auto simp: reorder_job_def Let_def is_failure_def split: if_splits option.splits)

lemma post_candidates_failure_unchanged:
  "is_failure (fst (post_candidates env body s0)) \<Longrightarrow>
   snd (post_candidates env body s0) = ensureSeed (seed_draws env) s0"
  by (auto simp: post_candidates_def Let_def is_failure_def split: if_splits option.splits)

lemma put_assessment_failure_unchanged:
  "is_failure (fst (put_assessment env jobId body s0)) \<Longrightarrow>
   snd (put_assessment env jobId body s0) = ensureSeed (seed_draws env) s0"
  by (auto simp: put_assessment_def Let_def is_failure_def split: if_splits)

lemma patch_candidate_failure_same_stage:
  "is_failure (fst (patch_candidate env i patch s0)) \<Longrightarrow> cp_stage patch = None \<Longrightarrow>
   snd (patch_candidate env i patch s0) = ensureSeed (seed_draws env) s0"
  by (auto simp: patch_candidate_def Let_def is_failure_def stage_changes_def
      split: if_splits option.splits)

text \<open>
  A Patch Candidate that changes the stage and then draws a failure returns 500 with
  the stage-change event already appended.
\<close>

lemma patch_candidate_failure_after_append:
  assumes "tget c_id i (candidates (ensureSeed (seed_draws env) s0)) = Some cand"
    and "cp_stage patch = Some B" and "B \<noteq> c_stage cand" and "rnd env < 8 / 100"
  shows "patch_candidate env i patch s0
         = (Response 500 ''Random failure (simulated)'',
            (ensureSeed (seed_draws env) s0)
              \<lparr>timelines := timelines (ensureSeed (seed_draws env) s0) @
                 [\<lparr>e_candidateId = i, e_type = stage_change, e_from = Some (c_stage cand),
                   e_to = Some B, e_note = None, e_at = now env 0\<rparr>]\<rparr>)"
  using assms by (simp add: patch_candidate_def Let_def stage_changes_def)

text \<open>
  C1. The claim requires of every mutating operation that a failed request leaves the
  store as it was. Patch Candidate appends the stage-change event before it draws: with
  the draw below \<open>0.08\<close> the request is answered 500, the candidate is not updated,
  and the appended Timeline Event stays in the store.
\<close>

theorem patch_candidate_failure_keeps_event:
  "patch_candidate (demo_env (1 / 100)) 1
      (stage_patch screen) demo_store
    = (Response 500 ''Random failure (simulated)'',
       demo_store\<lparr>timelines := [demo_origin,
          \<lparr>e_candidateId = 1, e_type = stage_change, e_from = Some applied, e_to = Some screen,
           e_note = None, e_at = 1000\<rparr>]\<rparr>)
   \<and> demo_store\<lparr>timelines := [demo_origin,
          \<lparr>e_candidateId = 1, e_type = stage_change, e_from = Some applied, e_to = Some screen,
           e_note = None, e_at = 1000\<rparr>]\<rparr> \<noteq> demo_store"
  by (simp add: patch_candidate_def demo_ensureSeed demo_env_def)
     (simp add: tget_def demo_store_def demo_candidate_def stage_changes_def stage_patch_def)

subsection \<open>The candidate timeline\<close>

text \<open>
  C6 (as amended). Get Candidate Timeline never fails: for every candidateId, whether or
  not the Candidates table has it, the handler returns with success exactly the Timeline
  Events stored under that candidateId, sorted by \<open>at\<close>.
\<close>

theorem get_timeline_never_fails:
  "\<exists>evs. get_timeline env i s0 = (Returned evs, ensureSeed (seed_draws env) s0)
     \<and> sorted (map e_at evs)
     \<and> mset evs = filter_mset (\<lambda>e. e_candidateId e = i)
                     (mset (timelines (ensureSeed (seed_draws env) s0)))"
  by (simp add: get_timeline_def Let_def)

text \<open>
  The claim as stated, a 404 for an absent candidateId, fails: the store has no
  candidate 99 and the request returns the empty sequence.
\<close>

theorem timeline_unknown_candidate_returns_empty:
  "\<not> has_key c_id 99 (candidates demo_store)
   \<and> get_timeline (demo_env (1 / 2)) 99 demo_store = (Returned [], demo_store)"
  by (simp add: get_timeline_def demo_ensureSeed has_key_def)
     (simp add: demo_store_def demo_candidate_def demo_origin_def)

text \<open>
  C8. For an existing Candidate with stage \<open>A\<close>, a successful Patch Candidate that sets the
  stage to \<open>B\<close> stores stage \<open>B\<close> and appends to the timeline exactly one event
  \<open>{type: stage_change, from: A, to: B}\<close> of that candidate when \<open>B \<noteq> A\<close>, and appends
  nothing when \<open>B = A\<close>.
\<close>

theorem patch_candidate_stage_event:
  assumes ex: "tget c_id i (candidates (ensureSeed (seed_draws env) s0)) = Some cand"
    and a: "c_stage cand = A"
    and b: "cp_stage patch = Some B"
    and ok: "\<not> is_failure (fst (patch_candidate env i patch s0))"
  shows "fst (patch_candidate env i patch s0) = Returned (spread_candidate cand patch (now env 1))
       \<and> c_stage (spread_candidate cand patch (now env 1)) = B
       \<and> timelines (snd (patch_candidate env i patch s0))
          = timelines (ensureSeed (seed_draws env) s0) @
            (if B \<noteq> A
             then [\<lparr>e_candidateId = i, e_type = stage_change, e_from = Some A, e_to = Some B,
                    e_note = None, e_at = now env 0\<rparr>]
             else [])"
  using assms
  by (auto simp: patch_candidate_def Let_def is_failure_def stage_changes_def spread_candidate_def
      or_else_def split: if_splits)

theorem patch_candidate_stage_event_witness:
  "tget c_id 1 (candidates (ensureSeed (seed_draws (demo_env (1 / 2))) demo_store))
     = Some demo_candidate
   \<and> c_stage demo_candidate = applied
   \<and> cp_stage (stage_patch screen) = Some screen
   \<and> \<not> is_failure (fst (patch_candidate (demo_env (1 / 2)) 1 (stage_patch screen) demo_store))
   \<and> timelines (snd (patch_candidate (demo_env (1 / 2)) 1 (stage_patch screen) demo_store))
      = [demo_origin,
         \<lparr>e_candidateId = 1, e_type = stage_change, e_from = Some applied, e_to = Some screen,
          e_note = None, e_at = 1000\<rparr>]
   \<and> cp_stage (stage_patch applied) = Some applied
   \<and> \<not> is_failure (fst (patch_candidate (demo_env (1 / 2)) 1 (stage_patch applied) demo_store))
   \<and> timelines (snd (patch_candidate (demo_env (1 / 2)) 1 (stage_patch applied) demo_store))
      = [demo_origin]"
proof -
  have ex: "tget c_id 1 (candidates (ensureSeed (seed_draws (demo_env (1 / 2))) demo_store))
     = Some demo_candidate"
    by (simp add: demo_ensureSeed) (simp add: demo_store_def tget_def demo_candidate_def)
  have a: "c_stage demo_candidate = applied" by (simp add: demo_candidate_def)
  have b1: "cp_stage (stage_patch screen) = Some screen" by (simp add: stage_patch_def)
  have b2: "cp_stage (stage_patch applied) = Some applied" by (simp add: stage_patch_def)
  have ok1: "\<not> is_failure (fst (patch_candidate (demo_env (1 / 2)) 1 (stage_patch screen) demo_store))"
    using ex by (simp add: patch_candidate_def demo_ensureSeed Let_def)
      (simp add: demo_env_def is_failure_def)
  have ok2: "\<not> is_failure (fst (patch_candidate (demo_env (1 / 2)) 1 (stage_patch applied) demo_store))"
    using ex by (simp add: patch_candidate_def demo_ensureSeed Let_def)
      (simp add: demo_env_def is_failure_def)
  have t: "timelines (ensureSeed (seed_draws (demo_env (1 / 2))) demo_store) = [demo_origin]"
    by (simp add: demo_ensureSeed) (simp add: demo_store_def)
  have n: "now (demo_env (1 / 2)) 0 = 1000" by (simp add: demo_env_def)
  from patch_candidate_stage_event [OF ex a b1 ok1] patch_candidate_stage_event [OF ex a b2 ok2]
  show ?thesis
    using ex a b1 b2 ok1 ok2 by (simp add: t n)
qed

subsection \<open>Pagination\<close>

lemma ceiling_is_ceil_div:
  assumes "0 < b"
  shows "\<lceil>real_of_int a / real_of_int b\<rceil> = ceil_div a b"
proof -
  have "\<lceil>real_of_int a / real_of_int b\<rceil> = - (- a div b)"
    by (rule ceiling_divide_eq_div)
  also have "\<dots> = ceil_div a b"
    using assms by (simp add: ceil_div_def zdiv_zminus1_eq_if)
  finally show ?thesis .
qed

lemma ceil_div_covers:
  assumes "0 < b"
  shows "a \<le> ceil_div a b * b"
proof (cases "a mod b = 0")
  case True
  have "a = a div b * b + a mod b" by simp
  with True have "a = a div b * b" by simp
  with True show ?thesis by (simp add: ceil_div_def)
next
  case False
  have "a = a div b * b + a mod b" by simp
  moreover have "a mod b < b" using assms by simp
  ultimately have "a \<le> a div b * b + b" by linarith
  with False show ?thesis by (simp add: ceil_div_def algebra_simps)
qed

lemma slice_is_range:
  assumes "0 \<le> i" and "i \<le> j"
  shows "slice xs i j = range_of xs (nat i) (nat j)"
proof -
  have "slice xs i j = take (min (nat j) (length xs) - min (nat i) (length xs))
                          (drop (min (nat i) (length xs)) xs)"
    using assms by (simp add: slice_def slice_index_def Let_def)
  also have "\<dots> = take (nat j - nat i) (drop (nat i) xs)"
  proof (cases "nat i \<le> length xs")
    case True
    then have "min (nat i) (length xs) = nat i" by simp
    moreover have "take (min (nat j) (length xs) - nat i) (drop (nat i) xs)
                   = take (nat j - nat i) (drop (nat i) xs)"
      by (cases "nat j \<le> length xs") (simp_all add: min_def)
    ultimately show ?thesis by simp
  next
    case False
    then show ?thesis by simp
  qed
  also have "\<dots> = range_of xs (nat i) (nat j)"
    by (simp add: range_of_def drop_take)
  finally show ?thesis .
qed

lemma paginate_eq_spec:
  assumes "1 \<le> pg" and "1 \<le> ps"
  shows "paginate items pg ps = paginate_spec items pg ps"
proof -
  have s0: "0 \<le> (pg - 1) * ps" using assms by simp
  have s1: "(pg - 1) * ps \<le> (pg - 1) * ps + ps" using assms by simp
  have e: "(pg - 1) * ps + ps = pg * ps" by (simp add: algebra_simps)
  have c: "\<lceil>real_of_int (int (length items)) / real_of_int ps\<rceil> = ceil_div (int (length items)) ps"
    using assms by (intro ceiling_is_ceil_div) simp
  have sl: "slice items ((pg - 1) * ps) ((pg - 1) * ps + ps)
            = range_of items (nat ((pg - 1) * ps)) (nat (pg * ps))"
    using slice_is_range [OF s0 s1, of items] by (simp only: e)
  show ?thesis
    unfolding paginate_def paginate_spec_def Let_def
    by (simp only: sl c)
qed

lemma paginate_out_of_range:
  assumes "1 \<le> pg" and "1 \<le> ps" and "pages (paginate items pg ps) < pg"
  shows "data (paginate items pg ps) = []"
proof -
  have "ceil_div (int (length items)) ps \<le> pages (paginate_spec items pg ps)"
    by (simp add: paginate_spec_def)
  also have "\<dots> \<le> pg - 1" using assms by (simp add: paginate_eq_spec)
  finally have "ceil_div (int (length items)) ps * ps \<le> (pg - 1) * ps"
    using assms by (intro mult_right_mono) simp_all
  moreover have "int (length items) \<le> ceil_div (int (length items)) ps * ps"
    using assms by (intro ceil_div_covers) simp
  ultimately have "int (length items) \<le> (pg - 1) * ps" by linarith
  then have "length items \<le> nat ((pg - 1) * ps)" by linarith
  then show ?thesis
    using assms by (simp add: paginate_eq_spec paginate_spec_def range_of_def)
qed

lemma length_jobs_sort: "length (jobs_sort srt xs) = length xs"
  by (simp add: jobs_sort_def Let_def)

text \<open>
  C5. For every item list and every \<open>page \<ge> 1\<close> and \<open>pageSize \<ge> 1\<close>, \<^verbatim>\<open>paginate\<close> returns
  \<open>{data, page, pageSize, total, pages}\<close> with \<open>total\<close> the number of items,
  \<open>pages = max(1, ceil(total/pageSize))\<close> and
  \<open>data = items[(page-1)*pageSize : page*pageSize]\<close>; a page beyond \<open>pages\<close> has empty data
  (and the same \<open>total\<close> and \<open>pages\<close>) instead of an error. The list handlers filter
  first, then sort, then paginate, so that \<open>total\<close> counts the filtered rows.
\<close>

theorem paginate_contract:
  assumes "1 \<le> pg" and "1 \<le> ps"
  shows "paginate items pg ps
           = \<lparr>data = range_of items (nat ((pg - 1) * ps)) (nat (pg * ps)), page = pg, pageSize = ps,
              total = int (length items), pages = max 1 (ceil_div (int (length items)) ps)\<rparr>
       \<and> (pages (paginate items pg ps) < pg \<longrightarrow> data (paginate items pg ps) = [])
       \<and> fst (get_jobs env (q\<lparr>jq_page := pg, jq_pageSize := ps\<rparr>) s0)
           = Returned (paginate_spec
               (jobs_sort (jq_sort q) (jobs_filter q (jobs (ensureSeed (seed_draws env) s0)))) pg ps)
       \<and> total (paginate_spec
               (jobs_sort (jq_sort q) (jobs_filter q (jobs (ensureSeed (seed_draws env) s0)))) pg ps)
           = int (length (jobs_filter q (jobs (ensureSeed (seed_draws env) s0))))
       \<and> fst (get_candidates env (cq\<lparr>cq_page := pg, cq_pageSize := ps\<rparr>) s0)
           = Returned (paginate_spec
               (sort_key (\<lambda>c. - c_createdAt c)
                  (candidates_filter cq (candidates (ensureSeed (seed_draws env) s0)))) pg ps)"
proof -
  have a: "paginate items pg ps = paginate_spec items pg ps" for items :: "'b list"
    using assms by (rule paginate_eq_spec)
  have b: "pages (paginate items pg ps) < pg \<longrightarrow> data (paginate items pg ps) = []"
    using assms paginate_out_of_range by blast
  have f: "jobs_filter (q\<lparr>jq_page := pg, jq_pageSize := ps\<rparr>) = jobs_filter q"
    by (rule ext) (simp add: jobs_filter_def)
  have g: "candidates_filter (cq\<lparr>cq_page := pg, cq_pageSize := ps\<rparr>) = candidates_filter cq"
    by (rule ext) (simp add: candidates_filter_def)
  have j: "fst (get_jobs env (q\<lparr>jq_page := pg, jq_pageSize := ps\<rparr>) s0)
           = Returned (paginate_spec
               (jobs_sort (jq_sort q) (jobs_filter q (jobs (ensureSeed (seed_draws env) s0)))) pg ps)"
    by (simp add: get_jobs_def Let_def f paginate_eq_spec [OF assms])
  have c: "fst (get_candidates env (cq\<lparr>cq_page := pg, cq_pageSize := ps\<rparr>) s0)
           = Returned (paginate_spec
               (sort_key (\<lambda>c. - c_createdAt c)
                  (candidates_filter cq (candidates (ensureSeed (seed_draws env) s0)))) pg ps)"
    by (simp add: get_candidates_def Let_def g paginate_eq_spec [OF assms])
  have t: "total (paginate_spec
               (jobs_sort (jq_sort q) (jobs_filter q (jobs (ensureSeed (seed_draws env) s0)))) pg ps)
           = int (length (jobs_filter q (jobs (ensureSeed (seed_draws env) s0))))"
    by (simp add: paginate_spec_def length_jobs_sort)
  show ?thesis
    using a [of items] b j c t unfolding paginate_spec_def [of items] by (intro conjI) 
qed

theorem paginate_contract_witness:
  "(1::int) \<le> 2
   \<and> paginate [10, 20, 30 :: nat] 2 2
       = \<lparr>data = [30], page = 2, pageSize = 2, total = 3, pages = 2\<rparr>
   \<and> fst (get_jobs (demo_env (1 / 2)) (demo_query\<lparr>jq_page := 2, jq_pageSize := 2\<rparr>) demo_store)
       = Returned \<lparr>data = [demo_job 3 ''Tester'' ''qa-3'' 2], page = 2, pageSize = 2, total = 3,
           pages = 2\<rparr>
   \<and> fst (get_candidates (demo_env (1 / 2)) (demo_cquery\<lparr>cq_page := 2, cq_pageSize := 2\<rparr>)
          demo_store)
       = Returned \<lparr>data = [], page = 2, pageSize = 2, total = 1, pages = 1\<rparr>
   \<and> (1::int) \<le> 5
   \<and> pages (paginate [10, 20, 30 :: nat] 5 2) < 5
   \<and> data (paginate [10, 20, 30 :: nat] 5 2) = []"
proof -
  have h: "(1::int) \<le> 2" "(1::int) \<le> 5" by simp_all
  have js: "jobs_sort (jq_sort demo_query)
              (jobs_filter demo_query (jobs (ensureSeed (seed_draws (demo_env (1 / 2))) demo_store)))
            = jobs demo_store"
    by (simp add: demo_ensureSeed)
       (simp add: demo_query_def jobs_filter_def jobs_sort_def demo_store_def demo_job_def
          job_matches_search_def JobStatus_str_def toLowerCase_def)
  have cs: "sort_key (\<lambda>c. - c_createdAt c)
              (candidates_filter demo_cquery
                 (candidates (ensureSeed (seed_draws (demo_env (1 / 2))) demo_store)))
            = [demo_candidate]"
    by (simp add: demo_ensureSeed)
       (simp add: demo_cquery_def candidates_filter_def demo_store_def demo_candidate_def
          candidate_matches_search_def toLowerCase_def lower_char_def includes_str_def)
  have p5: "pages (paginate [10, 20, 30 :: nat] 5 2) < 5"
    using paginate_contract [OF h(2) h(1), of "[10, 20, 30 :: nat]"]
    by (simp add: ceil_div_def)
  from paginate_contract [OF h(1) h(1), of "[10, 20, 30 :: nat]" "demo_env (1 / 2)" demo_query
      demo_store demo_cquery]
    paginate_contract [OF h(2) h(1), of "[10, 20, 30 :: nat]"] p5
  show ?thesis
    unfolding js cs
    by (simp add: range_of_def ceil_div_def paginate_spec_def demo_store_def)
qed

subsection \<open>Free-text search\<close>

text \<open>
  The candidate search agrees with the specification's case-insensitive substring match
  on \<open>name\<close> and \<open>email\<close>, and the job search agrees with it on \<open>title\<close> and \<open>slug\<close> for
  every job whose stored slug has no upper-case letter.
\<close>

lemma toLowerCase_Nil_iff: "toLowerCase s = [] \<longleftrightarrow> s = []"
  by (simp add: toLowerCase_def)

lemma lower_char_idem: "lower_char (lower_char c) = lower_char c"
proof -
  have "of_char (char_of (of_char c + (32::nat))) = (of_char c + 32 :: nat)"
    if "(65::nat) \<le> of_char c" "of_char c \<le> (90::nat)"
    using that by (simp add: of_char_of)
  then show ?thesis
    by (auto simp: lower_char_def Let_def)
qed

lemma toLowerCase_idem: "toLowerCase (toLowerCase s) = toLowerCase s"
  by (simp add: toLowerCase_def lower_char_idem)

lemma candidate_search_meets_spec:
  "(if toLowerCase search \<noteq> [] then candidate_matches_search (toLowerCase search) c else True)
   = candidate_search_spec search c"
  by (auto simp: candidate_matches_search_def candidate_search_spec_def ci_substring_def
      includes_str_def)

lemma job_search_meets_spec_lower_slug:
  "toLowerCase (j_slug j) = j_slug j \<Longrightarrow>
   job_matches_search (toLowerCase search) j = job_search_spec search j"
  by (auto simp: job_matches_search_def job_search_spec_def ci_substring_def includes_str_def)

text \<open>
  C7. The claim requires the job search to match a search string against \<open>title\<close> and
  \<open>slug\<close> without regard to case. The handler lower-cases the search string and the
  title but compares the slug as stored: Create Job stores the slug \<open>Dev-Ops\<close> as sent,
  the search string \<open>dev\<close> occurs in it when case is ignored, and List Jobs with that
  search does not return the job.
\<close>

theorem job_search_misses_upper_slug:
  "post_jobs (demo_env (1 / 2)) \<lparr>jb_title = ''Manager'', jb_slug = ''Dev-Ops'', jb_tags = None\<rparr>
      demo_store
     = (Returned upper_slug_job, demo_store\<lparr>jobs := jobs demo_store @ [upper_slug_job]\<rparr>)
   \<and> job_search_spec ''dev'' upper_slug_job
   \<and> \<not> job_matches_search (toLowerCase ''dev'') upper_slug_job
   \<and> fst (get_jobs (demo_env (1 / 2)) (search_query ''dev'')
            (demo_store\<lparr>jobs := jobs demo_store @ [upper_slug_job]\<rparr>))
       = Returned \<lparr>data = [demo_job 1 ''Developer'' ''dev-1'' 0], page = 1, pageSize = 10,
           total = 1, pages = 1\<rparr>"
proof -
  have sd: "seeded (demo_store\<lparr>jobs := jobs demo_store @ [upper_slug_job]\<rparr>)"
    using demo_seeded by (simp add: seeded_def)
  have a: "post_jobs (demo_env (1 / 2)) \<lparr>jb_title = ''Manager'', jb_slug = ''Dev-Ops'', jb_tags = None\<rparr>
      demo_store
     = (Returned upper_slug_job, demo_store\<lparr>jobs := jobs demo_store @ [upper_slug_job]\<rparr>)"
    by (simp add: post_jobs_def demo_ensureSeed demo_env_def)
       (simp add: demo_store_def demo_job_def slug_exists_def orderBy_order_def tadd_def
          has_key_def upper_slug_job_def Let_def)
  have b: "job_search_spec ''dev'' upper_slug_job"
    by code_simp
  have c: "\<not> job_matches_search (toLowerCase ''dev'') upper_slug_job"
    by code_simp
  have f: "jobs_sort ''order'' (jobs_filter (search_query ''dev'')
              [demo_job 1 ''Developer'' ''dev-1'' 0, demo_job 2 ''Operator'' ''ops-2'' 1,
               demo_job 3 ''Tester'' ''qa-3'' 2, upper_slug_job])
           = [demo_job 1 ''Developer'' ''dev-1'' 0]"
    by code_simp
  have p: "paginate [demo_job 1 ''Developer'' ''dev-1'' 0] 1 10
           = \<lparr>data = [demo_job 1 ''Developer'' ''dev-1'' 0], page = 1, pageSize = 10,
               total = 1, pages = 1\<rparr>"
    by (simp add: paginate_def slice_def slice_index_def)
  have d: "fst (get_jobs (demo_env (1 / 2)) (search_query ''dev'')
            (demo_store\<lparr>jobs := jobs demo_store @ [upper_slug_job]\<rparr>))
       = Returned \<lparr>data = [demo_job 1 ''Developer'' ''dev-1'' 0], page = 1, pageSize = 10,
           total = 1, pages = 1\<rparr>"
    by (simp add: get_jobs_def ensureSeed_id [OF sd] Let_def del: One_nat_def)
       (simp add: demo_store_def search_query_def f [unfolded search_query_def] p
          del: One_nat_def)
  from a b c d show ?thesis by (intro conjI)
qed

subsection \<open>Slug uniqueness\<close>

text \<open>
  Create Job rejects a slug that is already stored and otherwise keeps the slugs
  pairwise distinct. Patch Job rejects a non-empty slug that differs from the job's own
  and is already stored, and keeps the slugs pairwise distinct for every patch that sends
  no \<open>id\<close> and no empty slug.
\<close>

lemma distinct_map_insort_key:
  "distinct (map f (insort_key k r t)) \<longleftrightarrow> f r \<notin> f ` set t \<and> distinct (map f t)"
  by (induction t) (auto simp: set_insort_key)

lemma replace_absent_key:
  "k u \<notin> k ` set t \<Longrightarrow> map (\<lambda>x. if k x = k u then u else x) t = t"
  by (induction t) auto

lemma set_replace_subset:
  "set (map (\<lambda>x. if k x = k u then u else x) t) \<subseteq> insert u (set t)"
  by (induction t) auto

lemma replace_keeps_distinct:
  assumes "distinct (map k t)" and "distinct (map f t)" and "r \<in> set t" and "k r = k u"
    and "f u = f r \<or> f u \<notin> f ` set t"
  shows "distinct (map f (map (\<lambda>x. if k x = k u then u else x) t))"
  using assms
proof (induction t)
  case Nil
  then show ?case by simp
next
  case (Cons x t)
  show ?case
  proof (cases "x = r")
    case True
    with Cons.prems have "k u \<notin> k ` set t" by auto
    then have same: "map (\<lambda>x. if k x = k u then u else x) t = t" by (rule replace_absent_key)
    from Cons.prems True have "f u \<notin> f ` set t" by auto
    with Cons.prems True show ?thesis by (simp add: same)
  next
    case False
    with Cons.prems have rt: "r \<in> set t" by auto
    have "k x \<notin> k ` set t" using Cons.prems by simp
    then have kx: "k x \<noteq> k u" using rt Cons.prems(4) by (metis imageI)
    from Cons.prems have fu: "f u = f r \<or> f u \<notin> f ` set t" by auto
    from Cons.prems have d1: "distinct (map k t)" and d2: "distinct (map f t)" by auto
    have tail: "distinct (map f (map (\<lambda>x. if k x = k u then u else x) t))"
      by (rule Cons.IH [OF d1 d2 rt Cons.prems(4) fu])
    have fx: "f x \<notin> f ` set t" using Cons.prems by auto
    have ne: "f x \<noteq> f u" using Cons.prems(5) fx rt by auto
    have nf: "f x \<notin> set (map f (map (\<lambda>x. if k x = k u then u else x) t))"
    proof
      assume "f x \<in> set (map f (map (\<lambda>x. if k x = k u then u else x) t))"
      then obtain y where y: "y \<in> set (map (\<lambda>x. if k x = k u then u else x) t)" "f x = f y"
        by (auto simp only: set_map)
      with set_replace_subset [of k u t] have "y = u \<or> y \<in> set t" by blast
      with y ne fx show False by auto
    qed
    have "map f (map (\<lambda>x. if k x = k u then u else x) (x # t))
          = f x # map f (map (\<lambda>x. if k x = k u then u else x) t)"
      using kx by simp
    with nf tail show ?thesis by (metis distinct.simps(2))
  qed
qed

lemma post_jobs_rejects_duplicate_slug:
  "slug_exists (jb_slug body) (jobs (ensureSeed (seed_draws env) s0)) \<Longrightarrow>
   post_jobs env body s0 = (Response 400 ''Slug must be unique'', ensureSeed (seed_draws env) s0)"
  by (simp add: post_jobs_def Let_def)

lemma post_jobs_keeps_slugs_distinct:
  assumes "distinct (map j_slug (jobs (ensureSeed (seed_draws env) s0)))"
  shows "distinct (map j_slug (jobs (snd (post_jobs env body s0))))"
  using assms
  by (auto simp: post_jobs_def Let_def tadd_def slug_exists_def list_ex_iff
      distinct_map_insort_key split: if_splits)

lemma patch_job_rejects_duplicate_slug:
  assumes "tget j_id i (jobs (ensureSeed (seed_draws env) s0)) = Some job"
    and "jp_slug patch = Some sl" and "sl \<noteq> []" and "sl \<noteq> j_slug job"
    and "slug_exists sl (jobs (ensureSeed (seed_draws env) s0))"
  shows "patch_job env i patch s0
         = (Response 400 ''Slug must be unique'', ensureSeed (seed_draws env) s0)"
  using assms by (simp add: patch_job_def Let_def slug_changes_def or_else_def)

lemma patch_job_keeps_slugs_distinct:
  assumes wf: "wf_table j_id (jobs (ensureSeed (seed_draws env) s0))"
    and d: "distinct (map j_slug (jobs (ensureSeed (seed_draws env) s0)))"
    and noid: "jp_id patch = None" and nonempty: "jp_slug patch \<noteq> Some []"
  shows "distinct (map j_slug (jobs (snd (patch_job env i patch s0))))"
proof -
  define s where "s = ensureSeed (seed_draws env) s0"
  show ?thesis
  proof (cases "tget j_id i (jobs s)")
    case None
    then show ?thesis using d by (simp add: patch_job_def Let_def s_def)
  next
    case (Some job)
    then have jin: "job \<in> set (jobs s)" and jid: "j_id job = i"
      by (auto simp: tget_def find_Some_iff in_set_conv_nth)
    define updated where "updated = spread_job job patch (now env 0)"
    have uid: "j_id updated = j_id job"
      using noid by (simp add: updated_def spread_job_def or_else_def)
    show ?thesis
    proof (cases "fst (patch_job env i patch s0)")
      case (Returned u)
      with Some have res: "jobs (snd (patch_job env i patch s0)) = tput j_id updated (jobs s)"
        and chk: "\<not> (slug_changes patch job \<and> slug_exists (or_else (jp_slug patch) []) (jobs s))"
        by (auto simp: patch_job_def Let_def s_def updated_def split: if_splits)
      have hk: "has_key j_id (j_id updated) (jobs s)"
        using jin uid by (auto simp: has_key_def list_ex_iff)
      have slug: "j_slug updated = j_slug job \<or> j_slug updated \<notin> j_slug ` set (jobs s)"
      proof (cases "jp_slug patch")
        case None
        then show ?thesis by (simp add: updated_def spread_job_def or_else_def)
      next
        case (Some sl)
        with nonempty have "sl \<noteq> []" by simp
        with Some chk show ?thesis
          by (auto simp: updated_def spread_job_def or_else_def slug_changes_def slug_exists_def
              list_ex_iff)
      qed
      have "distinct (map j_slug (map (\<lambda>x. if j_id x = j_id updated then updated else x) (jobs s)))"
        using wf d jin uid slug
        by (intro replace_keeps_distinct [where r = job]) (simp_all add: wf_table_def s_def)
      with hk show ?thesis by (simp add: res tput_def)
    next
      case (Response c m)
      then have "is_failure (fst (patch_job env i patch s0))" by (simp add: is_failure_def)
      then show ?thesis using d by (simp add: patch_job_failure_unchanged)
    next
      case Thrown
      then have "is_failure (fst (patch_job env i patch s0))" by (simp add: is_failure_def)
      then show ?thesis using d by (simp add: patch_job_failure_unchanged)
    qed
  qed
qed

text \<open>
  C4. The claim requires Patch Job to reject every patch that would store a slug twice.
  The handler tests \<^verbatim>\<open>patch.slug && ...\<close>, so an empty slug is taken for an absent one and is
  stored unchecked: after Create Job has stored a job with the empty slug (the slugs are
  still pairwise distinct), patching job 2 to the empty slug succeeds and the table holds
  the empty slug twice.
\<close>

theorem patch_job_empty_slug_duplicates:
  "post_jobs (demo_env (1 / 2)) \<lparr>jb_title = ''Intern'', jb_slug = [], jb_tags = None\<rparr> demo_store
     = (Returned empty_slug_job, demo_store\<lparr>jobs := jobs demo_store @ [empty_slug_job]\<rparr>)
   \<and> distinct (map j_slug (jobs demo_store @ [empty_slug_job]))
   \<and> fst (patch_job (demo_env (1 / 2)) 2 (slug_patch [])
            (demo_store\<lparr>jobs := jobs demo_store @ [empty_slug_job]\<rparr>))
       = Returned ((demo_job 2 ''Operator'' [] 1)\<lparr>j_updatedAt := 1000\<rparr>)
   \<and> map j_slug (jobs (snd (patch_job (demo_env (1 / 2)) 2 (slug_patch [])
            (demo_store\<lparr>jobs := jobs demo_store @ [empty_slug_job]\<rparr>))))
       = [''dev-1'', [], ''qa-3'', []]
   \<and> \<not> distinct (map j_slug (jobs (snd (patch_job (demo_env (1 / 2)) 2 (slug_patch [])
            (demo_store\<lparr>jobs := jobs demo_store @ [empty_slug_job]\<rparr>)))))"
proof -
  have sd: "seeded (demo_store\<lparr>jobs := jobs demo_store @ [empty_slug_job]\<rparr>)"
    using demo_seeded by (simp add: seeded_def)
  have a: "post_jobs (demo_env (1 / 2)) \<lparr>jb_title = ''Intern'', jb_slug = [], jb_tags = None\<rparr>
      demo_store
     = (Returned empty_slug_job, demo_store\<lparr>jobs := jobs demo_store @ [empty_slug_job]\<rparr>)"
    by (simp add: post_jobs_def demo_ensureSeed demo_env_def)
       (simp add: demo_store_def demo_job_def slug_exists_def orderBy_order_def tadd_def
          has_key_def empty_slug_job_def Let_def)
  have b: "distinct (map j_slug (jobs demo_store @ [empty_slug_job]))"
    by (simp add: demo_store_def demo_job_def empty_slug_job_def)
  have c: "patch_job (demo_env (1 / 2)) 2 (slug_patch [])
            (demo_store\<lparr>jobs := jobs demo_store @ [empty_slug_job]\<rparr>)
       = (Returned ((demo_job 2 ''Operator'' [] 1)\<lparr>j_updatedAt := 1000\<rparr>),
          demo_store\<lparr>jobs := [demo_job 1 ''Developer'' ''dev-1'' 0,
             (demo_job 2 ''Operator'' [] 1)\<lparr>j_updatedAt := 1000\<rparr>,
             demo_job 3 ''Tester'' ''qa-3'' 2, empty_slug_job]\<rparr>)"
    by (simp add: patch_job_def ensureSeed_id [OF sd] Let_def)
       (simp add: demo_store_def demo_job_def empty_slug_job_def tget_def slug_changes_def
          slug_patch_def spread_job_def or_else_def demo_env_def tput_def has_key_def Let_def)
  show ?thesis
    unfolding c using a b by (simp add: demo_job_def empty_slug_job_def)
qed

text \<open>
  A patch that sends an \<open>id\<close> is stored under that id by \<^verbatim>\<open>put\<close>, next to the patched
  job, which also leaves one slug in two rows.
\<close>

lemma patch_job_id_override_duplicates:
  "map (\<lambda>j. (j_id j, j_slug j))
     (jobs (snd (patch_job (demo_env (1 / 2)) 1
        \<lparr>jp_id = Some 9, jp_title = None, jp_slug = None, jp_status = None, jp_tags = None,
         jp_order = None, jp_createdAt = None\<rparr> demo_store)))
   = [(1, ''dev-1''), (2, ''ops-2''), (3, ''qa-3''), (9, ''dev-1'')]"
  by (simp add: patch_job_def demo_ensureSeed Let_def)
     (simp add: demo_store_def demo_job_def tget_def slug_changes_def spread_job_def or_else_def
        demo_env_def tput_def has_key_def Let_def)

end
